theory Spec2Isabelle
  imports Main "HOL-Library.AList"
begin

section \<open>The signaling server of \<open>src/app/index.ts\<close>\<close>

text \<open>
  The server keeps two module-level \<open>Map\<close>s, \<open>transports\<close> and \<open>producers\<close>
  (lines 25-26), whose values are objects owned by the mediasoup engine. A JavaScript
  \<open>Map\<close> iterates in insertion order, \<open>set\<close> on an existing key keeps the key's
  position and \<open>delete\<close> removes the entry: an association list with
  \<open>AList.update\<close> and \<open>AList.delete\<close>. The engine's objects live in a store
  indexed by reference (the position in \<open>t_heap\<close> or \<open>p_heap\<close>), because
  the maps, the engine and the listeners all alias the same object and \<open>close()\<close>
  mutates it.

  Console output is not modelled. The opaque ICE, DTLS and RTP parameters are left out
  of the payloads.
\<close>

subsection \<open>Data\<close>

type_synonym socket_id = string

datatype media_kind = Audio | Video

datatype dtls_state = DtlsNew | DtlsConnecting | DtlsConnected | DtlsFailed | DtlsClosed

text \<open>A mediasoup \<open>WebRtcTransport\<close>: its id and its \<open>closed\<close> flag.\<close>

record transport_obj =
  t_id :: string
  t_closed :: bool

text \<open>
  A mediasoup \<open>Producer\<close>, extended as \<open>CustomProducer\<close> (lines 57-59) with the
  field \<open>transportId\<close>, which is undefined (\<open>None\<close>) until line 195 assigns it.
  \<open>p_transport\<close> is the engine's own link to the transport \<open>produce\<close> was called on.
\<close>

record producer_obj =
  p_id :: string
  p_closed :: bool
  p_kind :: media_kind
  p_transport :: nat
  transportId :: "string option"

text \<open>The payload handed to a request's acknowledgement \<open>callback\<close>.\<close>

datatype ack =
    AckRtpCapabilities
  | AckParams string
  | AckSuccess
  | AckId string
  | AckError string

text \<open>
  How an awaited engine promise settles: rejected with an \<open>Error\<close> (its message), or
  resolved; a resolved \<open>createWebRtcTransport\<close> or \<open>produce\<close> carries the id of
  the new object.
\<close>

datatype outcome = Rejected string | Resolved string

text \<open>
  A handler suspended at its \<open>await\<close>, with the variables its continuation closes over:
  line 162 (through line 96), line 178 and line 194. The boolean says whether the
  handler's \<open>callback\<close> parameter is a function: a client that emits a request without
  an acknowledgement leaves it \<open>undefined\<close>.
\<close>

datatype pending_call =
    PCreate socket_id bool
  | PConnect socket_id bool nat
  | PProduce socket_id bool string media_kind nat

record server =
  t_heap :: "transport_obj list"
  p_heap :: "producer_obj list"
  transports :: "(string \<times> nat) list"
  producers :: "(string \<times> nat) list"
  pending :: "pending_call list"
  acks :: "(socket_id \<times> ack) list"
  exit_timers :: "nat list"
  exit_code :: "int option"

definition init :: server where
  "init = \<lparr>t_heap = [], p_heap = [], transports = [], producers = [], pending = [],
           acks = [], exit_timers = [], exit_code = None\<rparr>"

subsection \<open>The two maps and the acknowledgement\<close>

definition transports_set :: "string \<Rightarrow> nat \<Rightarrow> server \<Rightarrow> server" where
  "transports_set k v s = s\<lparr>transports := AList.update k v (transports s)\<rparr>"

definition transports_delete :: "string \<Rightarrow> server \<Rightarrow> server" where
  "transports_delete k s = s\<lparr>transports := AList.delete k (transports s)\<rparr>"

definition producers_set :: "string \<Rightarrow> nat \<Rightarrow> server \<Rightarrow> server" where
  "producers_set k v s = s\<lparr>producers := AList.update k v (producers s)\<rparr>"

definition producers_delete :: "string \<Rightarrow> server \<Rightarrow> server" where
  "producers_delete k s = s\<lparr>producers := AList.delete k (producers s)\<rparr>"

text \<open>
  Calling the handler's \<open>callback\<close> parameter sends the acknowledgement; when the
  parameter is \<open>undefined\<close> the call throws a \<open>TypeError\<close>. An error is returned
  with the state it was thrown in.
\<close>

definition callback :: "socket_id \<Rightarrow> bool \<Rightarrow> ack \<Rightarrow> server \<Rightarrow> (string \<times> server) + server" where
  "callback sid cb a s =
     (if cb then Inr (s\<lparr>acks := acks s @ [(sid, a)]\<rparr>)
      else Inl (''callback is not a function'', s))"

text \<open>
  An exception that nothing catches, or the rejection of an \<open>async\<close> handler's own
  promise, which nothing handles: Node ends the process with exit code 1.
\<close>

definition uncaught :: "server \<Rightarrow> server" where
  "uncaught s = s\<lparr>exit_code := Some 1\<rparr>"

subsection \<open>The engine's close operations and the listeners attached to them\<close>

text \<open>
  The engine is mediasoup, which is not part of the repository. Its contract is taken
  from the events the server subscribes to and from the interface the specification
  gives for it: \<open>close()\<close> is idempotent; closing a transport notifies each producer
  created on it, which closes that producer and emits \<open>transportclose\<close> on it
  (listener at lines 197-201); a transport that closes emits \<open>@close\<close> (listener at
  lines 114-117). Every object of the store was created by the handlers below, which
  attach these listeners before they return to the event loop.

  When the worker dies the engine closes the router and with it every transport that
  is still open: the transport is marked closed and its producers are told so, as
  above, but \<open>@close\<close> is not emitted, so the listener of lines 114-117 does not run.
\<close>

definition producer_close :: "nat \<Rightarrow> server \<Rightarrow> server" where
  "producer_close p s =
     (if p_closed (p_heap s ! p) then s
      else s\<lparr>p_heap := (p_heap s)[p := (p_heap s ! p)\<lparr>p_closed := True\<rparr>]\<rparr>)"

text \<open>Lines 197-201: the \<open>transportclose\<close> listener of a producer.\<close>

definition on_transportclose :: "nat \<Rightarrow> server \<Rightarrow> server" where
  "on_transportclose producer s =
     producers_delete (p_id (p_heap s ! producer)) (producer_close producer s)"

text \<open>The engine telling a producer that its transport has closed.\<close>

definition producer_transportClosed :: "nat \<Rightarrow> server \<Rightarrow> server" where
  "producer_transportClosed p s =
     (if p_closed (p_heap s ! p) then s
      else on_transportclose p
             (s\<lparr>p_heap := (p_heap s)[p := (p_heap s ! p)\<lparr>p_closed := True\<rparr>]\<rparr>))"

text \<open>Lines 114-117: the \<open>@close\<close> listener of a transport.\<close>

definition on_close :: "nat \<Rightarrow> server \<Rightarrow> server" where
  "on_close transport s = transports_delete (t_id (t_heap s ! transport)) s"

definition producers_of :: "nat \<Rightarrow> server \<Rightarrow> nat list" where
  "producers_of t s = filter (\<lambda>p. p_transport (p_heap s ! p) = t) [0..<length (p_heap s)]"

definition transport_close :: "nat \<Rightarrow> server \<Rightarrow> server" where
  "transport_close t s =
     (if t_closed (t_heap s ! t) then s
      else on_close t
             (fold producer_transportClosed (producers_of t s)
                (s\<lparr>t_heap := (t_heap s)[t := (t_heap s ! t)\<lparr>t_closed := True\<rparr>]\<rparr>)))"

text \<open>The engine closing a transport because its router has closed.\<close>

definition transport_routerClosed :: "nat \<Rightarrow> server \<Rightarrow> server" where
  "transport_routerClosed t s =
     (if t_closed (t_heap s ! t) then s
      else fold producer_transportClosed (producers_of t s)
             (s\<lparr>t_heap := (t_heap s)[t := (t_heap s ! t)\<lparr>t_closed := True\<rparr>]\<rparr>))"

definition worker_closed :: "server \<Rightarrow> server" where
  "worker_closed s = fold transport_routerClosed [0..<length (t_heap s)] s"

text \<open>Lines 108-112: the \<open>dtlsstatechange\<close> listener of a transport.\<close>

definition on_dtlsstatechange :: "nat \<Rightarrow> dtls_state \<Rightarrow> server \<Rightarrow> server" where
  "on_dtlsstatechange transport dtlsState s =
     (if dtlsState = DtlsClosed then transport_close transport s else s)"

subsection \<open>The disconnect handler (lines 138-152)\<close>

text \<open>
  Both loops iterate a live \<open>Map\<close>: an entry deleted before the iterator reaches it is
  not visited, so each step checks that the entry is still there. Nothing is added to
  either map while the loops run. The inner loop starts afresh, on the producers map
  as it then is, for every transport. The socket is used for the log line only.
\<close>

fun disconnect_producers :: "string \<Rightarrow> (string \<times> nat) list \<Rightarrow> server \<Rightarrow> server" where
  "disconnect_producers tId [] s = s"
| "disconnect_producers tId ((producerId, producer) # es) s =
     disconnect_producers tId es
       (if map_of (producers s) producerId = Some producer
           \<and> transportId (p_heap s ! producer) = Some tId
        then producers_delete producerId (producer_close producer s)
        else s)"

fun disconnect_transports :: "(string \<times> nat) list \<Rightarrow> server \<Rightarrow> server" where
  "disconnect_transports [] s = s"
| "disconnect_transports ((tId, transport) # es) s =
     disconnect_transports es
       (if map_of (transports s) tId = Some transport
        then transports_delete tId
               (transport_close transport (disconnect_producers tId (producers s) s))
        else s)"

definition disconnect :: "socket_id \<Rightarrow> server \<Rightarrow> server" where
  "disconnect sid s = disconnect_transports (transports s) s"

subsection \<open>The request handlers\<close>

text \<open>
  A handler body either throws an \<open>Error\<close> (\<open>Inl\<close> of its message and of the state
  it is thrown in) or completes. The \<open>catch\<close> blocks (lines 164-167, 180-183,
  209-212) hand the message to the callback; when that call throws too, the
  \<open>async\<close> handler's promise is rejected and nothing handles it.
\<close>

definition try_catch :: "socket_id \<Rightarrow> bool \<Rightarrow> (string \<times> server) + server \<Rightarrow> server" where
  "try_catch sid cb body =
     (case body of
        Inr s' \<Rightarrow> s'
      | Inl (msg, s1) \<Rightarrow>
          (case callback sid cb (AckError msg) s1 of
             Inr s2 \<Rightarrow> s2
           | Inl (msg', s3) \<Rightarrow> uncaught s3))"

definition not_found :: "string \<Rightarrow> string" where
  "not_found tId = ''Transport not found [id: '' @ tId @ '']''"

text \<open>Lines 155-157. The handler has no \<open>try\<close>: what the callback throws, nothing catches.\<close>

definition getRouterRtpCapabilities :: "socket_id \<Rightarrow> bool \<Rightarrow> server \<Rightarrow> server" where
  "getRouterRtpCapabilities sid cb s =
     (case callback sid cb AckRtpCapabilities s of
        Inr s' \<Rightarrow> s'
      | Inl (msg, s1) \<Rightarrow> uncaught s1)"

text \<open>
  Lines 87-131, after the \<open>await\<close> of line 96: the new transport gets its listeners
  and is stored under its id. The result is the state, the transport and \<open>params.id\<close>.
\<close>

definition createWebRtcTransport :: "outcome \<Rightarrow> server \<Rightarrow> string + (server \<times> nat \<times> string)" where
  "createWebRtcTransport out s =
     (case out of
        Rejected msg \<Rightarrow> Inl msg
      | Resolved newId \<Rightarrow>
          (let transport = length (t_heap s);
               s1 = s\<lparr>t_heap := t_heap s @ [\<lparr>t_id = newId, t_closed = False\<rparr>]\<rparr>
           in Inr (transports_set newId transport s1, transport, newId)))"

text \<open>Lines 160-168, up to the \<open>await\<close> and from it.\<close>

definition createWebRtcTransport_start :: "socket_id \<Rightarrow> bool \<Rightarrow> server \<Rightarrow> server" where
  "createWebRtcTransport_start sid cb s = s\<lparr>pending := pending s @ [PCreate sid cb]\<rparr>"

definition createWebRtcTransport_resume ::
  "socket_id \<Rightarrow> bool \<Rightarrow> outcome \<Rightarrow> server \<Rightarrow> server" where
  "createWebRtcTransport_resume sid cb out s =
     try_catch sid cb
       (case createWebRtcTransport out s of
          Inl msg \<Rightarrow> Inl (msg, s)
        | Inr (s', transport, params) \<Rightarrow> callback sid cb (AckParams params) s')"

text \<open>
  Lines 171-184, up to the \<open>await\<close> of line 178 and from it. The payload is
  destructured in the parameter list, outside the \<open>try\<close>: a payload that is \<open>null\<close>
  or \<open>undefined\<close> (\<open>None\<close>) throws there and rejects the handler's promise.
\<close>

definition connectTransport_start ::
  "socket_id \<Rightarrow> string option \<Rightarrow> bool \<Rightarrow> server \<Rightarrow> server" where
  "connectTransport_start sid payload cb s =
     (case payload of
        None \<Rightarrow> uncaught s
      | Some tId \<Rightarrow>
          try_catch sid cb
            (case map_of (transports s) tId of
               None \<Rightarrow> Inl (not_found tId, s)
             | Some transport \<Rightarrow>
                 Inr (s\<lparr>pending := pending s @ [PConnect sid cb transport]\<rparr>)))"

definition connectTransport_resume ::
  "socket_id \<Rightarrow> bool \<Rightarrow> outcome \<Rightarrow> server \<Rightarrow> server" where
  "connectTransport_resume sid cb out s =
     try_catch sid cb
       (case out of
          Rejected msg \<Rightarrow> Inl (msg, s)
        | Resolved _ \<Rightarrow> callback sid cb AckSuccess s)"

text \<open>Lines 187-213, up to the \<open>await\<close> of line 194 and from it.\<close>

definition produce_start ::
  "socket_id \<Rightarrow> (string \<times> media_kind) option \<Rightarrow> bool \<Rightarrow> server \<Rightarrow> server" where
  "produce_start sid payload cb s =
     (case payload of
        None \<Rightarrow> uncaught s
      | Some (tId, kind) \<Rightarrow>
          try_catch sid cb
            (case map_of (transports s) tId of
               None \<Rightarrow> Inl (not_found tId, s)
             | Some transport \<Rightarrow>
                 Inr (s\<lparr>pending := pending s @ [PProduce sid cb tId kind transport]\<rparr>)))"

definition produce_resume ::
  "socket_id \<Rightarrow> bool \<Rightarrow> string \<Rightarrow> media_kind \<Rightarrow> nat \<Rightarrow> outcome \<Rightarrow> server \<Rightarrow> server" where
  "produce_resume sid cb tId kind transport out s =
     try_catch sid cb
       (case out of
          Rejected msg \<Rightarrow> Inl (msg, s)
        | Resolved newId \<Rightarrow>
            (let producer = length (p_heap s);
                 s1 = s\<lparr>p_heap := p_heap s @
                        [\<lparr>p_id = newId, p_closed = False, p_kind = kind,
                          p_transport = transport, transportId = None\<rparr>]\<rparr>;
                 s2 = s1\<lparr>p_heap := (p_heap s1)[producer :=
                        (p_heap s1 ! producer)\<lparr>transportId := Some tId\<rparr>]\<rparr>;
                 s3 = producers_set newId producer s2
             in callback sid cb (AckId newId) s3))"

subsection \<open>The worker's \<open>died\<close> listener (lines 71-74) and the timer it sets\<close>

definition on_died :: "server \<Rightarrow> server" where
  "on_died s = s\<lparr>exit_timers := exit_timers s @ [2000]\<rparr>"

text \<open>The timer's callback is \<open>process.exit(1)\<close>.\<close>

definition timer_fire :: "server \<Rightarrow> server" where
  "timer_fire s =
     (case exit_timers s of
        [] \<Rightarrow> s
      | d # ds \<Rightarrow> s\<lparr>exit_timers := ds, exit_code := Some 1\<rparr>)"

subsection \<open>The event loop\<close>

text \<open>
  One event is one run of the event loop to the next suspension: a message from a
  socket, a socket's disconnect, the settling of an awaited engine call, or a
  notification of the engine. A request carries the socket, the payload where the
  handler takes one, and whether the client asked for an acknowledgement. A process
  that has exited handles nothing.

  What the engine may do is its contract: it settles only calls that are pending, it
  gives a new object an id it has not used before (mediasoup ids are UUIDs), and it
  notifies only about objects that exist. What the engine answers after its worker
  has died is not restricted any further.

  The death of the worker is one event: the engine closes the router and its
  transports, emits \<open>died\<close>, and rejects every awaited call, the \<open>n\<close>-th with the
  message \<open>msgs n\<close>; the handlers resume before the event loop turns again.
\<close>

datatype event =
    Connection socket_id
  | Disconnect socket_id
  | GetRouterRtpCapabilities socket_id bool
  | CreateWebRtcTransport socket_id bool
  | ConnectTransport socket_id "string option" bool
  | Produce socket_id "(string \<times> media_kind) option" bool
  | Settle nat outcome
  | DtlsStateChange nat dtls_state
  | WorkerDied "nat \<Rightarrow> string"
  | TimerFire

definition remove_nth :: "nat \<Rightarrow> 'a list \<Rightarrow> 'a list" where
  "remove_nth n xs = take n xs @ drop (Suc n) xs"

fun engine_may_settle :: "pending_call \<Rightarrow> outcome \<Rightarrow> server \<Rightarrow> bool" where
  "engine_may_settle (PCreate sid cb) (Resolved newId) s =
     (newId \<notin> set (map t_id (t_heap s)))"
| "engine_may_settle (PProduce sid cb tId kind transport) (Resolved newId) s =
     (newId \<notin> set (map p_id (p_heap s)))"
| "engine_may_settle c out s = True"

fun resume :: "pending_call \<Rightarrow> outcome \<Rightarrow> server \<Rightarrow> server" where
  "resume (PCreate sid cb) out s = createWebRtcTransport_resume sid cb out s"
| "resume (PConnect sid cb transport) out s = connectTransport_resume sid cb out s"
| "resume (PProduce sid cb tId kind transport) out s =
     produce_resume sid cb tId kind transport out s"

text \<open>
  The order in which handlers resume when all their calls are rejected at once. Each
  \<open>await\<close> on the way from the engine's call to the handler's \<open>catch\<close> block takes
  one more turn of the microtask queue, and the handler of \<open>createWebRtcTransport\<close>
  awaits the engine through the function of lines 87-131 (line 162, then line 96),
  one \<open>await\<close> more than the other two: it resumes after them. Among handlers at the
  same depth the order is that of the calls. Each call keeps its number.
\<close>

fun awaits_create :: "pending_call \<Rightarrow> bool" where
  "awaits_create (PCreate sid cb) = True"
| "awaits_create c = False"

definition resume_order :: "pending_call list \<Rightarrow> (nat \<times> pending_call) list" where
  "resume_order cs =
     filter (\<lambda>(n, c). \<not> awaits_create c) (zip [0..<length cs] cs)
     @ filter (\<lambda>(n, c). awaits_create c) (zip [0..<length cs] cs)"

fun reject_all :: "(nat \<Rightarrow> string) \<Rightarrow> (nat \<times> pending_call) list \<Rightarrow> server \<Rightarrow> server" where
  "reject_all msgs [] s = s"
| "reject_all msgs ((n, c) # cs) s = reject_all msgs cs (resume c (Rejected (msgs n)) s)"

fun handle :: "event \<Rightarrow> server \<Rightarrow> server" where
  "handle (Connection sid) s = s"
| "handle (Disconnect sid) s = disconnect sid s"
| "handle (GetRouterRtpCapabilities sid cb) s = getRouterRtpCapabilities sid cb s"
| "handle (CreateWebRtcTransport sid cb) s = createWebRtcTransport_start sid cb s"
| "handle (ConnectTransport sid payload cb) s = connectTransport_start sid payload cb s"
| "handle (Produce sid payload cb) s = produce_start sid payload cb s"
| "handle (Settle n out) s =
     (if n < length (pending s) \<and> engine_may_settle (pending s ! n) out s
      then resume (pending s ! n) out (s\<lparr>pending := remove_nth n (pending s)\<rparr>)
      else s)"
| "handle (DtlsStateChange transport dtlsState) s =
     (if transport < length (t_heap s) then on_dtlsstatechange transport dtlsState s else s)"
| "handle (WorkerDied msgs) s =
     reject_all msgs (resume_order (pending s))
       ((on_died (worker_closed s))\<lparr>pending := []\<rparr>)"
| "handle TimerFire s = timer_fire s"

definition step :: "event \<Rightarrow> server \<Rightarrow> server" where
  "step e s = (if exit_code s = None then handle e s else s)"

definition run :: "event list \<Rightarrow> server \<Rightarrow> server" where
  "run es s = fold step es s"

text \<open>The socket whose request a suspended handler belongs to.\<close>

fun caller :: "pending_call \<Rightarrow> socket_id" where
  "caller (PCreate sid cb) = sid"
| "caller (PConnect sid cb transport) = sid"
| "caller (PProduce sid cb tId kind transport) = sid"

text \<open>Whether a suspended handler has a callback, and whether a request is as the
  protocol wants it: with an acknowledgement and, where the handler takes one, a payload.\<close>

fun acked :: "pending_call \<Rightarrow> bool" where
  "acked (PCreate sid cb) = cb"
| "acked (PConnect sid cb transport) = cb"
| "acked (PProduce sid cb tId kind transport) = cb"

fun acked_request :: "event \<Rightarrow> bool" where
  "acked_request (GetRouterRtpCapabilities sid cb) = cb"
| "acked_request (CreateWebRtcTransport sid cb) = cb"
| "acked_request (ConnectTransport sid payload cb) = (payload \<noteq> None \<and> cb)"
| "acked_request (Produce sid payload cb) = (payload \<noteq> None \<and> cb)"
| "acked_request e = True"

subsection \<open>Example states\<close>

text \<open>
  The server after socket \<open>A\<close> has created transport \<open>t1\<close> and produced \<open>p1\<close>
  on it.
\<close>

definition one_stream :: server where
  "one_stream = \<lparr>t_heap = [\<lparr>t_id = ''t1'', t_closed = False\<rparr>],
     p_heap = [\<lparr>p_id = ''p1'', p_closed = False, p_kind = Audio, p_transport = 0,
                transportId = Some ''t1''\<rparr>],
     transports = [(''t1'', 0)], producers = [(''p1'', 0)], pending = [],
     acks = [(''A'', AckParams ''t1''), (''A'', AckId ''p1'')],
     exit_timers = [], exit_code = None\<rparr>"

text \<open>
  Two sockets: \<open>A\<close> owns transport \<open>t1\<close> with producer \<open>p1\<close>, \<open>B\<close> owns
  transport \<open>t2\<close> with producer \<open>p2\<close>.
\<close>

definition two_streams :: server where
  "two_streams =
     \<lparr>t_heap = [\<lparr>t_id = ''t1'', t_closed = False\<rparr>, \<lparr>t_id = ''t2'', t_closed = False\<rparr>],
      p_heap = [\<lparr>p_id = ''p2'', p_closed = False, p_kind = Audio, p_transport = 1,
                 transportId = Some ''t2''\<rparr>,
                \<lparr>p_id = ''p1'', p_closed = False, p_kind = Video, p_transport = 0,
                 transportId = Some ''t1''\<rparr>],
      transports = [(''t1'', 0), (''t2'', 1)], producers = [(''p2'', 0), (''p1'', 1)],
      pending = [],
      acks = [(''A'', AckParams ''t1''), (''B'', AckParams ''t2''), (''B'', AckId ''p2''),
              (''A'', AckId ''p1'')],
      exit_timers = [], exit_code = None\<rparr>"

text \<open>
  Socket \<open>A\<close> owns transport \<open>t1\<close>; three engine calls are still awaited: a
  \<open>createWebRtcTransport\<close> of \<open>B\<close>, and a \<open>connect\<close> and a \<open>produce\<close> of
  \<open>A\<close> on \<open>t1\<close>.
\<close>

definition three_pending :: server where
  "three_pending = \<lparr>t_heap = [\<lparr>t_id = ''t1'', t_closed = False\<rparr>], p_heap = [],
     transports = [(''t1'', 0)], producers = [],
     pending = [PCreate ''B'' True, PConnect ''A'' True 0,
                PProduce ''A'' True ''t1'' Audio 0],
     acks = [(''A'', AckParams ''t1'')], exit_timers = [], exit_code = None\<rparr>"

text \<open>
  A state of the two maps in which transport \<open>t1\<close> and its producer \<open>p1\<close> are
  both closed already and both still stored.
\<close>

definition stale_stream :: server where
  "stale_stream = \<lparr>t_heap = [\<lparr>t_id = ''t1'', t_closed = True\<rparr>],
     p_heap = [\<lparr>p_id = ''p1'', p_closed = True, p_kind = Audio, p_transport = 0,
                transportId = Some ''t1''\<rparr>],
     transports = [(''t1'', 0)], producers = [(''p1'', 0)], pending = [],
     acks = [(''A'', AckParams ''t1''), (''A'', AckId ''p1'')],
     exit_timers = [], exit_code = None\<rparr>"

text \<open>The message of a call that is rejected because the worker's channel has closed.\<close>

definition channel_closed :: "nat \<Rightarrow> string" where
  "channel_closed n = ''Channel closed''"

subsection \<open>Well-formed states\<close>

text \<open>
  What the handlers maintain between events. A stored transport is filed under its
  own id (line 120) and a stored producer under its own id (line 204); the keys of a
  \<open>Map\<close> are distinct. Whether a stored object is open is left free: the transports
  of a dead worker stay in the map closed.
\<close>

definition transports_ok :: "server \<Rightarrow> bool" where
  "transports_ok s \<longleftrightarrow>
     distinct (map fst (transports s)) \<and>
     list_all (\<lambda>(k, t). t < length (t_heap s) \<and> t_id (t_heap s ! t) = k) (transports s)"

definition producers_ok :: "server \<Rightarrow> bool" where
  "producers_ok s \<longleftrightarrow>
     distinct (map fst (producers s)) \<and>
     list_all (\<lambda>(k, p). p < length (p_heap s) \<and> p_id (p_heap s ! p) = k) (producers s)"

text \<open>
  The engine never issues an id twice, and every producer object carries, in
  \<open>transportId\<close>, the id of the transport it was created on.
\<close>

definition heaps_ok :: "server \<Rightarrow> bool" where
  "heaps_ok s \<longleftrightarrow>
     distinct (map t_id (t_heap s)) \<and> distinct (map p_id (p_heap s)) \<and>
     list_all (\<lambda>p. p_transport p < length (t_heap s)
                   \<and> transportId p = Some (t_id (t_heap s ! p_transport p))) (p_heap s)"

text \<open>A suspended handler holds a transport that exists, looked up under the id it names.\<close>

fun pending_call_ok :: "server \<Rightarrow> pending_call \<Rightarrow> bool" where
  "pending_call_ok s (PCreate sid cb) = True"
| "pending_call_ok s (PConnect sid cb transport) = (transport < length (t_heap s))"
| "pending_call_ok s (PProduce sid cb tId kind transport) =
     (transport < length (t_heap s) \<and> t_id (t_heap s ! transport) = tId)"

definition well_formed :: "server \<Rightarrow> bool" where
  "well_formed s \<longleftrightarrow> transports_ok s \<and> producers_ok s \<and> heaps_ok s
              \<and> list_all (pending_call_ok s) (pending s)"

text \<open>Every stored producer is open.\<close>

definition producers_open :: "server \<Rightarrow> bool" where
  "producers_open s \<longleftrightarrow> list_all (\<lambda>(k, p). \<not> p_closed (p_heap s ! p)) (producers s)"


text \<open>
  The \<open>transportId\<close> of every stored producer is the id of the transport the engine
  created it on.
\<close>

definition producer_transport_ids :: "server \<Rightarrow> bool" where
  "producer_transport_ids s \<longleftrightarrow>
     list_all (\<lambda>(k, p). transportId (p_heap s ! p)
                          = Some (t_id (t_heap s ! p_transport (p_heap s ! p))))
       (producers s)"

text \<open>
  The footprint of the closing operations: objects are neither created nor renamed,
  a closed object stays closed, and the maps only lose entries.
\<close>

definition only_closes :: "server \<Rightarrow> server \<Rightarrow> bool" where
  "only_closes s s' \<longleftrightarrow>
     length (t_heap s') = length (t_heap s) \<and> length (p_heap s') = length (p_heap s) \<and>
     (\<forall>u. t_id (t_heap s' ! u) = t_id (t_heap s ! u) \<and>
          (t_closed (t_heap s ! u) \<longrightarrow> t_closed (t_heap s' ! u))) \<and>
     (\<forall>q. p_id (p_heap s' ! q) = p_id (p_heap s ! q) \<and>
          p_kind (p_heap s' ! q) = p_kind (p_heap s ! q) \<and>
          p_transport (p_heap s' ! q) = p_transport (p_heap s ! q) \<and>
          transportId (p_heap s' ! q) = transportId (p_heap s ! q) \<and>
          (p_closed (p_heap s ! q) \<longrightarrow> p_closed (p_heap s' ! q))) \<and>
     set (transports s') \<subseteq> set (transports s) \<and>
     set (producers s') \<subseteq> set (producers s)"

section \<open>Properties\<close>

subsection \<open>What each operation leaves alone\<close>

lemma nth_list_update_any:
  "xs[i := x] ! j = (if i < length xs \<and> j = i then x else xs ! j)"
  by (cases "i < length xs") (auto simp: nth_list_update list_update_beyond)

lemma producer_close_frame [simp]:
  "t_heap (producer_close p s) = t_heap s"
  "transports (producer_close p s) = transports s"
  "producers (producer_close p s) = producers s"
  "pending (producer_close p s) = pending s"
  "acks (producer_close p s) = acks s"
  "exit_timers (producer_close p s) = exit_timers s"
  "exit_code (producer_close p s) = exit_code s"
  "length (p_heap (producer_close p s)) = length (p_heap s)"
  by (simp_all add: producer_close_def)

lemma producer_close_nth [simp]:
  "p_id (p_heap (producer_close p s) ! q) = p_id (p_heap s ! q)"
  "p_kind (p_heap (producer_close p s) ! q) = p_kind (p_heap s ! q)"
  "p_transport (p_heap (producer_close p s) ! q) = p_transport (p_heap s ! q)"
  "transportId (p_heap (producer_close p s) ! q) = transportId (p_heap s ! q)"
  by (simp_all add: producer_close_def nth_list_update_any)

lemma producer_close_closed:
  "p_closed (p_heap (producer_close p s) ! q) =
     (q = p \<and> p < length (p_heap s) \<or> p_closed (p_heap s ! q))"
  by (auto simp: producer_close_def nth_list_update_any)

lemma producers_delete_frame [simp]:
  "t_heap (producers_delete k s) = t_heap s"
  "p_heap (producers_delete k s) = p_heap s"
  "transports (producers_delete k s) = transports s"
  "producers (producers_delete k s) = AList.delete k (producers s)"
  "pending (producers_delete k s) = pending s"
  "acks (producers_delete k s) = acks s"
  "exit_timers (producers_delete k s) = exit_timers s"
  "exit_code (producers_delete k s) = exit_code s"
  by (simp_all add: producers_delete_def)

lemma transports_delete_frame [simp]:
  "t_heap (transports_delete k s) = t_heap s"
  "p_heap (transports_delete k s) = p_heap s"
  "transports (transports_delete k s) = AList.delete k (transports s)"
  "producers (transports_delete k s) = producers s"
  "pending (transports_delete k s) = pending s"
  "acks (transports_delete k s) = acks s"
  "exit_timers (transports_delete k s) = exit_timers s"
  "exit_code (transports_delete k s) = exit_code s"
  by (simp_all add: transports_delete_def)

lemma producer_transportClosed_eq:
  "producer_transportClosed p s =
     (if p_closed (p_heap s ! p) then s else on_transportclose p s)"
  by (cases "p < length (p_heap s)")
     (auto simp: producer_transportClosed_def on_transportclose_def producer_close_def
                 producers_delete_def nth_list_update_any)

lemma on_transportclose_frame [simp]:
  "t_heap (on_transportclose p s) = t_heap s"
  "transports (on_transportclose p s) = transports s"
  "producers (on_transportclose p s) = AList.delete (p_id (p_heap s ! p)) (producers s)"
  "pending (on_transportclose p s) = pending s"
  "acks (on_transportclose p s) = acks s"
  "exit_timers (on_transportclose p s) = exit_timers s"
  "exit_code (on_transportclose p s) = exit_code s"
  "length (p_heap (on_transportclose p s)) = length (p_heap s)"
  "p_heap (on_transportclose p s) = p_heap (producer_close p s)"
  by (simp_all add: on_transportclose_def)

lemma producer_transportClosed_frame [simp]:
  "t_heap (producer_transportClosed p s) = t_heap s"
  "transports (producer_transportClosed p s) = transports s"
  "pending (producer_transportClosed p s) = pending s"
  "acks (producer_transportClosed p s) = acks s"
  "exit_timers (producer_transportClosed p s) = exit_timers s"
  "exit_code (producer_transportClosed p s) = exit_code s"
  "length (p_heap (producer_transportClosed p s)) = length (p_heap s)"
  by (simp_all add: producer_transportClosed_eq)

lemma producer_transportClosed_t_heap_upd:
  "producer_transportClosed p (s\<lparr>t_heap := h\<rparr>) = (producer_transportClosed p s)\<lparr>t_heap := h\<rparr>"
  by (simp add: producer_transportClosed_def on_transportclose_def producer_close_def
                producers_delete_def)

lemma fold_transportClosed_t_heap_upd:
  "fold producer_transportClosed ps (s\<lparr>t_heap := h\<rparr>) =
     (fold producer_transportClosed ps s)\<lparr>t_heap := h\<rparr>"
  by (induction ps arbitrary: s) (simp_all add: producer_transportClosed_t_heap_upd)

lemma fold_transportClosed_frame [simp]:
  "t_heap (fold producer_transportClosed ps s) = t_heap s"
  "transports (fold producer_transportClosed ps s) = transports s"
  "pending (fold producer_transportClosed ps s) = pending s"
  "acks (fold producer_transportClosed ps s) = acks s"
  "exit_timers (fold producer_transportClosed ps s) = exit_timers s"
  "exit_code (fold producer_transportClosed ps s) = exit_code s"
  "length (p_heap (fold producer_transportClosed ps s)) = length (p_heap s)"
  by (induction ps arbitrary: s) simp_all

lemma producers_of_t_heap_upd [simp]:
  "producers_of t (s\<lparr>t_heap := h\<rparr>) = producers_of t s"
  by (simp add: producers_of_def)

lemma transport_close_eq:
  "transport_close t s =
     (if t_closed (t_heap s ! t) then s
      else (fold producer_transportClosed (producers_of t s) s)
             \<lparr>t_heap := (t_heap s)[t := (t_heap s ! t)\<lparr>t_closed := True\<rparr>],
              transports := AList.delete (t_id (t_heap s ! t)) (transports s)\<rparr>)"
  by (simp add: transport_close_def on_close_def transports_delete_def
                fold_transportClosed_t_heap_upd nth_list_update_any)

lemma transport_close_frame [simp]:
  "pending (transport_close t s) = pending s"
  "acks (transport_close t s) = acks s"
  "exit_timers (transport_close t s) = exit_timers s"
  "exit_code (transport_close t s) = exit_code s"
  "length (t_heap (transport_close t s)) = length (t_heap s)"
  "length (p_heap (transport_close t s)) = length (p_heap s)"
  by (simp_all add: transport_close_eq)

lemma transport_close_t_id [simp]:
  "t_id (t_heap (transport_close t s) ! u) = t_id (t_heap s ! u)"
  by (simp add: transport_close_eq nth_list_update_any)

lemma transport_close_t_closed:
  "t_closed (t_heap (transport_close t s) ! u) =
     (u = t \<and> t < length (t_heap s) \<or> t_closed (t_heap s ! u))"
  by (auto simp: transport_close_eq nth_list_update_any)

lemma transport_close_transports:
  "transports (transport_close t s) =
     (if t_closed (t_heap s ! t) then transports s
      else AList.delete (t_id (t_heap s ! t)) (transports s))"
  by (simp add: transport_close_eq)

lemma transport_close_producers:
  "producers (transport_close t s) =
     (if t_closed (t_heap s ! t) then producers s
      else producers (fold producer_transportClosed (producers_of t s) s))"
  "p_heap (transport_close t s) =
     (if t_closed (t_heap s ! t) then p_heap s
      else p_heap (fold producer_transportClosed (producers_of t s) s))"
  by (simp_all add: transport_close_eq)

lemma disconnect_producers_frame [simp]:
  "t_heap (disconnect_producers tId es s) = t_heap s"
  "transports (disconnect_producers tId es s) = transports s"
  "pending (disconnect_producers tId es s) = pending s"
  "acks (disconnect_producers tId es s) = acks s"
  "exit_timers (disconnect_producers tId es s) = exit_timers s"
  "exit_code (disconnect_producers tId es s) = exit_code s"
  "length (p_heap (disconnect_producers tId es s)) = length (p_heap s)"
  by (induction tId es s rule: disconnect_producers.induct) simp_all

lemma disconnect_transports_frame [simp]:
  "pending (disconnect_transports es s) = pending s"
  "acks (disconnect_transports es s) = acks s"
  "exit_timers (disconnect_transports es s) = exit_timers s"
  "exit_code (disconnect_transports es s) = exit_code s"
  "length (t_heap (disconnect_transports es s)) = length (t_heap s)"
  "length (p_heap (disconnect_transports es s)) = length (p_heap s)"
  by (induction es s rule: disconnect_transports.induct) simp_all

lemma transports_body_filter:
  "\<exists>Q. transports (transports_delete tId
              (transport_close transport (disconnect_producers tId ps s)))
        = filter (\<lambda>e. fst e \<noteq> tId \<and> Q e) (transports s)"
proof (cases "t_closed (t_heap s ! transport)")
  case True
  then show ?thesis
    by (intro exI [of _ "\<lambda>e. True"])
       (auto simp: transport_close_transports AList.delete_eq intro: filter_cong)
next
  case False
  then show ?thesis
    by (intro exI [of _ "\<lambda>e. fst e \<noteq> t_id (t_heap s ! transport)"])
       (auto simp: transport_close_transports AList.delete_eq intro: filter_cong)
qed

lemma disconnect_transports_empty:
  "\<exists>P. transports s = filter P es \<Longrightarrow> transports (disconnect_transports es s) = []"
proof (induction es s rule: disconnect_transports.induct)
  case (1 s)
  then show ?case by auto
next
  case (2 tId transport es s)
  from "2.prems" obtain P where P: "transports s = filter P ((tId, transport) # es)"
    by blast
  let ?s1 = "transports_delete tId
               (transport_close transport (disconnect_producers tId (producers s) s))"
  obtain Q where Q: "transports ?s1 = filter (\<lambda>e. fst e \<noteq> tId \<and> Q e) (transports s)"
    using transports_body_filter by blast
  have s1: "\<exists>P'. transports ?s1 = filter P' es"
    using P Q by (auto intro!: exI [of _ "\<lambda>e. P e \<and> fst e \<noteq> tId \<and> Q e"] filter_cong)
  show ?case
  proof (cases "map_of (transports s) tId = Some transport")
    case True
    with "2.IH" s1 show ?thesis by simp
  next
    case False
    with P have "\<not> P (tId, transport)" by auto
    with P have "\<exists>P'. transports s = filter P' es" by auto
    with "2.IH" False show ?thesis by simp
  qed
qed

lemma transports_disconnect [simp]: "transports (disconnect sid s) = []"
  unfolding disconnect_def
  by (rule disconnect_transports_empty) (rule exI [of _ "\<lambda>_. True"], simp)

lemma disconnect_twice: "disconnect sid' (disconnect sid s) = disconnect sid s"
  by (simp add: disconnect_def [of sid'])

lemma transport_close_twice:
  "t < length (t_heap s) \<Longrightarrow> transport_close t (transport_close t s) = transport_close t s"
  by (simp add: transport_close_def [of t "transport_close t s"] transport_close_t_closed)

lemma producer_close_twice:
  "p < length (p_heap s) \<Longrightarrow> producer_close p (producer_close p s) = producer_close p s"
  by (simp add: producer_close_def [of p "producer_close p s"] producer_close_closed)

lemma disconnect_exit [simp]:
  "exit_code (disconnect sid s) = exit_code s" "exit_timers (disconnect sid s) = exit_timers s"
  by (simp_all add: disconnect_def)

lemma disconnect_pending_acks [simp]:
  "pending (disconnect sid s) = pending s" "acks (disconnect sid s) = acks s"
  "length (t_heap (disconnect sid s)) = length (t_heap s)"
  "length (p_heap (disconnect sid s)) = length (p_heap s)"
  by (simp_all add: disconnect_def)

lemma disconnect_transports_t_id [simp]:
  "t_id (t_heap (disconnect_transports es s) ! u) = t_id (t_heap s ! u)"
  by (induction es s rule: disconnect_transports.induct) simp_all

lemma disconnect_t_ids [simp]: "map t_id (t_heap (disconnect sid s)) = map t_id (t_heap s)"
  by (rule nth_equalityI) (simp_all add: disconnect_def)

lemma run_Cons: "run (e # es) s = run es (step e s)"
  by (simp add: run_def)

lemma set_remove_nth: "set (remove_nth n xs) \<subseteq> set xs"
  by (auto simp: remove_nth_def dest: in_set_takeD in_set_dropD)

lemma transport_routerClosed_eq:
  "transport_routerClosed t s =
     (if t_closed (t_heap s ! t) then s
      else (fold producer_transportClosed (producers_of t s) s)
             \<lparr>t_heap := (t_heap s)[t := (t_heap s ! t)\<lparr>t_closed := True\<rparr>]\<rparr>)"
  by (simp add: transport_routerClosed_def fold_transportClosed_t_heap_upd)

lemma transport_routerClosed_frame [simp]:
  "transports (transport_routerClosed t s) = transports s"
  "pending (transport_routerClosed t s) = pending s"
  "acks (transport_routerClosed t s) = acks s"
  "exit_timers (transport_routerClosed t s) = exit_timers s"
  "exit_code (transport_routerClosed t s) = exit_code s"
  "length (t_heap (transport_routerClosed t s)) = length (t_heap s)"
  "length (p_heap (transport_routerClosed t s)) = length (p_heap s)"
  by (simp_all add: transport_routerClosed_eq)

lemma fold_routerClosed_frame [simp]:
  "transports (fold transport_routerClosed ts s) = transports s"
  "pending (fold transport_routerClosed ts s) = pending s"
  "acks (fold transport_routerClosed ts s) = acks s"
  "exit_timers (fold transport_routerClosed ts s) = exit_timers s"
  "exit_code (fold transport_routerClosed ts s) = exit_code s"
  "length (t_heap (fold transport_routerClosed ts s)) = length (t_heap s)"
  "length (p_heap (fold transport_routerClosed ts s)) = length (p_heap s)"
  by (induction ts arbitrary: s) simp_all

lemma worker_closed_frame [simp]:
  "transports (worker_closed s) = transports s"
  "pending (worker_closed s) = pending s"
  "acks (worker_closed s) = acks s"
  "exit_timers (worker_closed s) = exit_timers s"
  "exit_code (worker_closed s) = exit_code s"
  "length (t_heap (worker_closed s)) = length (t_heap s)"
  "length (p_heap (worker_closed s)) = length (p_heap s)"
  by (simp_all add: worker_closed_def)

subsection \<open>The handlers and the event loop\<close>

lemma try_catch_callback:
  "try_catch sid cb (callback sid cb a s) =
     (if cb then s\<lparr>acks := acks s @ [(sid, a)]\<rparr> else uncaught s)"
  by (simp add: try_catch_def callback_def)

lemma try_catch_throw:
  "try_catch sid cb (Inl (msg, s)) =
     (if cb then s\<lparr>acks := acks s @ [(sid, AckError msg)]\<rparr> else uncaught s)"
  by (simp add: try_catch_def callback_def)

lemma try_catch_Inr: "try_catch sid cb (Inr s) = s"
  by (simp add: try_catch_def)

lemma handler_resume_Rejected:
  "createWebRtcTransport_resume sid cb (Rejected msg) s =
     (if cb then s\<lparr>acks := acks s @ [(sid, AckError msg)]\<rparr> else uncaught s)"
  "connectTransport_resume sid cb (Rejected msg) s =
     (if cb then s\<lparr>acks := acks s @ [(sid, AckError msg)]\<rparr> else uncaught s)"
  "produce_resume sid cb tId kind transport (Rejected msg) s =
     (if cb then s\<lparr>acks := acks s @ [(sid, AckError msg)]\<rparr> else uncaught s)"
  by (simp_all add: createWebRtcTransport_resume_def createWebRtcTransport_def
        connectTransport_resume_def produce_resume_def try_catch_throw)

lemma resume_Rejected:
  "resume c (Rejected msg) s =
     (if acked c then s\<lparr>acks := acks s @ [(caller c, AckError msg)]\<rparr> else uncaught s)"
  by (cases c) (simp_all add: handler_resume_Rejected)

lemma produce_resume_Resolved:
  "produce_resume sid cb tId kind transport (Resolved newId) s =
     (if cb then callback_sent else uncaught)
       (producers_set newId (length (p_heap s))
          (s\<lparr>p_heap := p_heap s @ [\<lparr>p_id = newId, p_closed = False, p_kind = kind,
                 p_transport = transport, transportId = Some tId\<rparr>]\<rparr>))"
  if "callback_sent = (\<lambda>s'. s'\<lparr>acks := acks s' @ [(sid, AckId newId)]\<rparr>)"
  using that by (simp add: produce_resume_def try_catch_callback Let_def)

lemma createWebRtcTransport_resume_Resolved:
  "createWebRtcTransport_resume sid cb (Resolved newId) s =
     (if cb then callback_sent else uncaught)
       (transports_set newId (length (t_heap s))
          (s\<lparr>t_heap := t_heap s @ [\<lparr>t_id = newId, t_closed = False\<rparr>]\<rparr>))"
  if "callback_sent = (\<lambda>s'. s'\<lparr>acks := acks s' @ [(sid, AckParams newId)]\<rparr>)"
  using that
  by (simp add: createWebRtcTransport_resume_def createWebRtcTransport_def
        try_catch_callback Let_def)

lemma connectTransport_resume_Resolved:
  "connectTransport_resume sid cb (Resolved x) s =
     (if cb then s\<lparr>acks := acks s @ [(sid, AckSuccess)]\<rparr> else uncaught s)"
  by (simp add: connectTransport_resume_def try_catch_callback)

lemmas resume_Resolved =
  produce_resume_Resolved [OF refl] createWebRtcTransport_resume_Resolved [OF refl]
  connectTransport_resume_Resolved

lemma resume_acks:
  "acks (resume c out s) =
     (if acked c
      then acks s @
        [(caller c, case out of Rejected msg \<Rightarrow> AckError msg
                 | Resolved newId \<Rightarrow> (case c of PCreate _ _ \<Rightarrow> AckParams newId
                     | PConnect _ _ _ \<Rightarrow> AckSuccess | PProduce _ _ _ _ _ \<Rightarrow> AckId newId))]
      else acks s)"
  by (cases c; cases out)
     (simp_all add: handler_resume_Rejected resume_Resolved uncaught_def
        transports_set_def producers_set_def)

lemma resume_frame [simp]:
  "pending (resume c out s) = pending s"
  "exit_timers (resume c out s) = exit_timers s"
  by (cases c; cases out;
      simp add: handler_resume_Rejected resume_Resolved uncaught_def transports_set_def
        producers_set_def)+

lemma resume_exit_code:
  "exit_code (resume c out s) = (if acked c then exit_code s else Some 1)"
  by (cases c; cases out)
     (simp_all add: handler_resume_Rejected resume_Resolved uncaught_def transports_set_def
        producers_set_def)

lemma resume_Rejected_frame [simp]:
  "t_heap (resume c (Rejected msg) s) = t_heap s"
  "p_heap (resume c (Rejected msg) s) = p_heap s"
  "transports (resume c (Rejected msg) s) = transports s"
  "producers (resume c (Rejected msg) s) = producers s"
  by (simp_all add: resume_Rejected uncaught_def)

lemma reject_all_frame [simp]:
  "t_heap (reject_all msgs cs s) = t_heap s"
  "p_heap (reject_all msgs cs s) = p_heap s"
  "transports (reject_all msgs cs s) = transports s"
  "producers (reject_all msgs cs s) = producers s"
  "pending (reject_all msgs cs s) = pending s"
  "exit_timers (reject_all msgs cs s) = exit_timers s"
  by (induction msgs cs s rule: reject_all.induct) simp_all

lemma reject_all_exit_code:
  "exit_code (reject_all msgs cs s) =
     (if list_all (\<lambda>(n, c). acked c) cs then exit_code s else Some 1)"
  by (induction msgs cs s rule: reject_all.induct) (simp_all add: resume_exit_code)

lemma reject_all_acks:
  "\<exists>xs. acks (reject_all msgs cs s) = acks s @ xs \<and> (\<forall>x\<in>set xs. \<exists>m. snd x = AckError m)"
proof (induction msgs cs s rule: reject_all.induct)
  case (1 msgs s)
  show ?case by simp
next
  case (2 msgs n c cs s)
  let ?s1 = "resume c (Rejected (msgs n)) s"
  from "2.IH" obtain xs where
    xs: "acks (reject_all msgs cs ?s1) = acks ?s1 @ xs"
        "\<forall>x\<in>set xs. \<exists>m. snd x = AckError m" by blast
  show ?case
  proof (cases "acked c")
    case True
    then show ?thesis
      using xs by (intro exI [of _ "[(caller c, AckError (msgs n))] @ xs"])
                  (simp add: resume_acks)
  next
    case False
    then show ?thesis
      using xs by (intro exI [of _ xs]) (simp add: resume_acks)
  qed
qed

lemma resume_order_acked:
  "list_all acked cs \<Longrightarrow> list_all (\<lambda>(n, c). acked c) (resume_order cs)"
  by (auto simp: resume_order_def list_all_iff dest: set_zip_rightD)

lemma handle_exit_code:
  "exit_code (handle e s) = exit_code s \<or> exit_code (handle e s) = Some 1"
  by (cases e)
     (auto simp: getRouterRtpCapabilities_def createWebRtcTransport_start_def
        connectTransport_start_def produce_start_def try_catch_def callback_def uncaught_def
        on_dtlsstatechange_def on_died_def timer_fire_def disconnect_def resume_exit_code
        reject_all_exit_code
        split: option.splits list.splits)

lemma handle_exit_timers:
  "e \<noteq> TimerFire \<Longrightarrow>
     exit_timers (handle e s) =
       (case e of WorkerDied msgs \<Rightarrow> exit_timers s @ [2000] | _ \<Rightarrow> exit_timers s)"
  by (cases e)
     (auto simp: getRouterRtpCapabilities_def createWebRtcTransport_start_def
        connectTransport_start_def produce_start_def try_catch_def callback_def uncaught_def
        on_dtlsstatechange_def on_died_def disconnect_def
        split: option.splits)

lemma handle_acked:
  assumes "list_all acked (pending s)" and "acked_request e" and "e \<noteq> TimerFire"
  shows "exit_code (handle e s) = exit_code s \<and> list_all acked (pending (handle e s))"
proof (cases e)
  case (Settle n out)
  have "list_all acked (remove_nth n (pending s))"
    using assms(1) set_remove_nth [of n "pending s"] by (auto simp: list_all_iff)
  moreover have "acked (pending s ! n)" if "n < length (pending s)"
    using assms(1) that by (simp add: list_all_length)
  ultimately show ?thesis using Settle assms(1) by (simp add: resume_exit_code)
next
  case (WorkerDied msgs)
  then show ?thesis
    using assms(1) by (simp add: reject_all_exit_code on_died_def resume_order_acked)
qed (use assms in \<open>auto simp: getRouterRtpCapabilities_def createWebRtcTransport_start_def
        connectTransport_start_def produce_start_def try_catch_def callback_def
        on_dtlsstatechange_def disconnect_def split: option.splits\<close>)

lemma handle_AckId:
  assumes "acks (handle e s) = acks s @ [(sid, AckId newId)]"
  shows "\<exists>n cb tId kind t. e = Settle n (Resolved newId) \<and> n < length (pending s)
            \<and> pending s ! n = PProduce sid cb tId kind t"
proof (cases e)
  case (Settle n out)
  with assms have g: "n < length (pending s)" "engine_may_settle (pending s ! n) out s"
    by (auto split: if_splits)
  with assms Settle
  have "acked (pending s ! n)"
    and "(caller (pending s ! n), case out of Rejected msg \<Rightarrow> AckError msg
                 | Resolved newId \<Rightarrow> (case pending s ! n of PCreate _ _ \<Rightarrow> AckParams newId
                     | PConnect _ _ _ \<Rightarrow> AckSuccess | PProduce _ _ _ _ _ \<Rightarrow> AckId newId))
         = (sid, AckId newId)"
    by (auto simp: resume_acks split: if_splits)
  then show ?thesis using Settle g
    by (cases out; cases "pending s ! n") auto
next
  case (WorkerDied msgs)
  obtain xs where xs: "acks (handle e s) = acks s @ xs" "\<forall>x\<in>set xs. \<exists>m. snd x = AckError m"
    using reject_all_acks [of msgs "resume_order (pending s)"
                            "(on_died (worker_closed s))\<lparr>pending := []\<rparr>"]
    by (auto simp: WorkerDied on_died_def)
  with assms have "xs = [(sid, AckId newId)]" by simp
  with xs(2) show ?thesis by simp
qed (use assms in \<open>auto simp: getRouterRtpCapabilities_def createWebRtcTransport_start_def
        connectTransport_start_def produce_start_def try_catch_def callback_def uncaught_def
        on_dtlsstatechange_def on_died_def timer_fire_def
        split: option.splits list.splits if_splits\<close>)

lemma handle_new_PProduce:
  assumes "PProduce sid cb tId kind t \<in> set (pending (handle e s))"
    and "PProduce sid cb tId kind t \<notin> set (pending s)"
  shows "e = Produce sid (Some (tId, kind)) cb \<and> map_of (transports s) tId = Some t"
proof (cases e)
  case (Settle n out)
  with assms show ?thesis
    using set_remove_nth [of n "pending s"] by (auto split: if_splits)
qed (use assms in \<open>auto simp: getRouterRtpCapabilities_def createWebRtcTransport_start_def
        connectTransport_start_def produce_start_def try_catch_def callback_def uncaught_def
        on_dtlsstatechange_def on_died_def timer_fire_def
        split: option.splits list.splits if_splits\<close>)

subsection \<open>Well-formedness is preserved\<close>

lemma transports_okD:
  assumes "transports_ok s" and "(k, t) \<in> set (transports s)"
  shows "t < length (t_heap s)" "t_id (t_heap s ! t) = k"
  using assms by (auto simp: transports_ok_def list_all_iff)

lemma producers_okD:
  assumes "producers_ok s" and "(k, p) \<in> set (producers s)"
  shows "p < length (p_heap s)" "p_id (p_heap s ! p) = k"
  using assms by (auto simp: producers_ok_def list_all_iff)

lemma wf_init: "well_formed init"
  by (simp add: well_formed_def transports_ok_def producers_ok_def heaps_ok_def init_def)

lemma heaps_okD:
  assumes "heaps_ok s" and "p < length (p_heap s)"
  shows "p_transport (p_heap s ! p) < length (t_heap s)"
    "transportId (p_heap s ! p) = Some (t_id (t_heap s ! p_transport (p_heap s ! p)))"
  using assms by (auto simp: heaps_ok_def list_all_length)

lemma set_delete: "set (AList.delete k al) = {e \<in> set al. fst e \<noteq> k}"
  by (auto simp: AList.delete_eq)

lemma map_of_None_iff: "map_of al k = None \<longleftrightarrow> k \<notin> fst ` set al"
  by (simp add: map_of_eq_None_iff)

lemma distinct_fst_unique:
  "distinct (map fst al) \<Longrightarrow> (k, a) \<in> set al \<Longrightarrow> (k, b) \<in> set al \<Longrightarrow> a = b"
  by (metis map_of_is_SomeI option.inject)

lemma update_fresh: "k \<notin> fst ` set al \<Longrightarrow> AList.update k v al = al @ [(k, v)]"
  by (induction al) auto

lemma map_p_id_producer_close [simp]:
  "map p_id (p_heap (producer_close p s)) = map p_id (p_heap s)"
  by (rule nth_equalityI) simp_all

lemma heaps_ok_on_transportclose:
  assumes "heaps_ok s"
  shows "heaps_ok (on_transportclose p s)"
  using assms by (simp add: heaps_ok_def list_all_length)

lemma pending_call_ok_cong:
  "length (t_heap s') = length (t_heap s) \<Longrightarrow>
   (\<And>u. t_id (t_heap s' ! u) = t_id (t_heap s ! u)) \<Longrightarrow>
   pending_call_ok s' = pending_call_ok s"
proof
  fix c
  assume "length (t_heap s') = length (t_heap s)" "\<And>u. t_id (t_heap s' ! u) = t_id (t_heap s ! u)"
  then show "pending_call_ok s' c = pending_call_ok s c" by (cases c) simp_all
qed

lemma transports_ok_cong:
  "transports s' = transports s \<Longrightarrow> t_heap s' = t_heap s \<Longrightarrow>
   transports_ok s' = transports_ok s"
  by (simp add: transports_ok_def)

lemma producers_ok_cong:
  "producers s' = producers s \<Longrightarrow> p_heap s' = p_heap s \<Longrightarrow>
   producers_ok s' = producers_ok s"
  by (simp add: producers_ok_def)

lemma producers_ok_on_transportclose:
  assumes "producers_ok s"
  shows "producers_ok (on_transportclose p s)"
  using assms
  by (auto simp: producers_ok_def list_all_iff set_delete AList.distinct_delete)

lemma wf_on_transportclose: "well_formed s \<Longrightarrow> well_formed (on_transportclose p s)"
  by (simp add: well_formed_def producers_ok_on_transportclose heaps_ok_on_transportclose
        transports_ok_cong [of "on_transportclose p s" s]
        pending_call_ok_cong [of "on_transportclose p s" s])

lemma wf_producer_transportClosed: "well_formed s \<Longrightarrow> well_formed (producer_transportClosed p s)"
  by (simp add: producer_transportClosed_eq wf_on_transportclose)

lemma wf_fold_transportClosed: "well_formed s \<Longrightarrow> well_formed (fold producer_transportClosed ps s)"
  by (induction ps arbitrary: s) (simp_all add: wf_producer_transportClosed)

lemma map_t_id_mark [simp]:
  "map t_id (h[t := (h ! t)\<lparr>t_closed := True\<rparr>]) = map t_id h"
  by (rule nth_equalityI) (simp_all add: nth_list_update_any)

lemma wf_mark_transport:
  assumes "well_formed s"
  shows "well_formed (s\<lparr>t_heap := (t_heap s)[t := (t_heap s ! t)\<lparr>t_closed := True\<rparr>]\<rparr>)"
proof -
  let ?s' = "s\<lparr>t_heap := (t_heap s)[t := (t_heap s ! t)\<lparr>t_closed := True\<rparr>]\<rparr>"
  have "transports_ok ?s'"
    using assms by (auto simp: well_formed_def transports_ok_def list_all_iff nth_list_update_any)
  moreover have "producers_ok ?s'"
    using assms by (simp add: well_formed_def producers_ok_def)
  moreover have "heaps_ok ?s'"
    using assms by (auto simp: well_formed_def heaps_ok_def nth_list_update_any list_all_iff)
  moreover have "pending_call_ok ?s' = pending_call_ok s"
    by (rule pending_call_ok_cong) (simp_all add: nth_list_update_any)
  then have "list_all (pending_call_ok ?s') (pending ?s')"
    using assms by (simp add: well_formed_def)
  ultimately show ?thesis by (simp add: well_formed_def)
qed

lemma wf_transports_delete: "well_formed s \<Longrightarrow> well_formed (transports_delete k s)"
  by (auto simp: well_formed_def transports_ok_def AList.distinct_delete list_all_iff set_delete
        producers_ok_cong [of "transports_delete k s" s] heaps_ok_def
        pending_call_ok_cong [of "transports_delete k s" s])

lemma wf_transport_routerClosed: "well_formed s \<Longrightarrow> well_formed (transport_routerClosed t s)"
  by (simp add: transport_routerClosed_def wf_fold_transportClosed wf_mark_transport)

lemma wf_transport_close: "well_formed s \<Longrightarrow> well_formed (transport_close t s)"
  by (simp add: transport_close_def on_close_def wf_transports_delete wf_fold_transportClosed
        wf_mark_transport)

lemma wf_worker_closed: "well_formed s \<Longrightarrow> well_formed (worker_closed s)"
proof -
  have "well_formed s \<Longrightarrow> well_formed (fold transport_routerClosed ts s)" for ts
    by (induction ts arbitrary: s) (simp_all add: wf_transport_routerClosed)
  then show "well_formed s \<Longrightarrow> well_formed (worker_closed s)"
    by (simp add: worker_closed_def)
qed

lemma disconnect_producers_body:
  assumes "producers_ok s" and "map_of (producers s) producerId = Some producer"
  shows "producers_delete producerId (producer_close producer s) = on_transportclose producer s"
proof -
  from assms(2) have "(producerId, producer) \<in> set (producers s)" by (rule map_of_SomeD)
  from producers_okD(2) [OF assms(1) this] show ?thesis by (simp add: on_transportclose_def)
qed

lemma wf_disconnect_producers: "well_formed s \<Longrightarrow> well_formed (disconnect_producers tId es s)"
proof (induction tId es s rule: disconnect_producers.induct)
  case (1 tId s)
  then show ?case by simp
next
  case (2 tId producerId producer es s)
  then show ?case
    by (auto simp: disconnect_producers_body wf_on_transportclose well_formed_def [of s])
qed

lemma wf_disconnect_transports: "well_formed s \<Longrightarrow> well_formed (disconnect_transports es s)"
  by (induction es s rule: disconnect_transports.induct)
     (simp_all add: wf_transports_delete wf_transport_close wf_disconnect_producers)

lemma wf_disconnect: "well_formed s \<Longrightarrow> well_formed (disconnect sid s)"
  by (simp add: disconnect_def wf_disconnect_transports)

lemma wf_acks_upd [simp]: "well_formed (s\<lparr>acks := a\<rparr>) = well_formed s"
  by (simp add: well_formed_def transports_ok_def producers_ok_def heaps_ok_def
        pending_call_ok_cong [of "s\<lparr>acks := a\<rparr>" s])

lemma wf_exit_upd [simp]:
  "well_formed (s\<lparr>exit_timers := x\<rparr>) = well_formed s"
  "well_formed (s\<lparr>exit_code := y\<rparr>) = well_formed s"
  "well_formed (s\<lparr>exit_timers := x, exit_code := y\<rparr>) = well_formed s"
  by (simp_all add: well_formed_def transports_ok_def producers_ok_def heaps_ok_def
        pending_call_ok_cong [of "s\<lparr>exit_timers := x\<rparr>" s]
        pending_call_ok_cong [of "s\<lparr>exit_code := y\<rparr>" s]
        pending_call_ok_cong [of "s\<lparr>exit_timers := x, exit_code := y\<rparr>" s])

lemma wf_uncaught [simp]: "well_formed (uncaught s) = well_formed s"
  by (simp add: uncaught_def)

lemma wf_pending_upd:
  "well_formed s \<Longrightarrow> list_all (pending_call_ok s) cs \<Longrightarrow> well_formed (s\<lparr>pending := cs\<rparr>)"
  by (simp add: well_formed_def transports_ok_def producers_ok_def heaps_ok_def
        pending_call_ok_cong [of "s\<lparr>pending := cs\<rparr>" s])

lemma wf_remove_nth: "well_formed s \<Longrightarrow> well_formed (s\<lparr>pending := remove_nth n (pending s)\<rparr>)"
proof (rule wf_pending_upd)
  assume "well_formed s"
  then have "list_all (pending_call_ok s) (pending s)" by (simp add: well_formed_def)
  then show "list_all (pending_call_ok s) (remove_nth n (pending s))"
    using set_remove_nth [of n "pending s"] by (auto simp: list_all_iff)
qed

lemma wf_pending_snoc:
  "well_formed s \<Longrightarrow> pending_call_ok s c \<Longrightarrow> well_formed (s\<lparr>pending := pending s @ [c]\<rparr>)"
  by (rule wf_pending_upd) (simp_all add: well_formed_def)

lemma wf_createWebRtcTransport_start:
  "well_formed s \<Longrightarrow> well_formed (createWebRtcTransport_start sid cb s)"
  by (simp add: createWebRtcTransport_start_def wf_pending_snoc)

lemma wf_connectTransport_start:
  assumes "well_formed s"
  shows "well_formed (connectTransport_start sid payload cb s)"
proof (cases payload)
  case None
  then show ?thesis using assms by (simp add: connectTransport_start_def)
next
  case (Some tId)
  show ?thesis
  proof (cases "map_of (transports s) tId")
    case None
    then show ?thesis
      using assms Some by (simp add: connectTransport_start_def try_catch_throw)
  next
    case (Some t)
    then have "(tId, t) \<in> set (transports s)" by (rule map_of_SomeD)
    moreover have "transports_ok s" using assms by (simp add: well_formed_def)
    ultimately have "pending_call_ok s (PConnect sid cb t)" by (simp add: transports_okD)
    with assms Some \<open>payload = Some tId\<close> show ?thesis
      by (simp add: connectTransport_start_def try_catch_Inr wf_pending_snoc)
  qed
qed

lemma wf_produce_start:
  assumes "well_formed s"
  shows "well_formed (produce_start sid payload cb s)"
proof (cases payload)
  case None
  then show ?thesis using assms by (simp add: produce_start_def)
next
  case (Some pl)
  obtain tId kind where pl: "pl = (tId, kind)" by (cases pl)
  show ?thesis
  proof (cases "map_of (transports s) tId")
    case None
    then show ?thesis
      using assms Some pl by (simp add: produce_start_def try_catch_throw)
  next
    case (Some t)
    then have "(tId, t) \<in> set (transports s)" by (rule map_of_SomeD)
    moreover have "transports_ok s" using assms by (simp add: well_formed_def)
    ultimately have "pending_call_ok s (PProduce sid cb tId kind t)"
      by (simp add: transports_okD)
    with assms Some \<open>payload = Some pl\<close> pl show ?thesis
      by (simp add: produce_start_def try_catch_Inr wf_pending_snoc)
  qed
qed

lemma stored_transport_ids:
  assumes "transports_ok s"
  shows "fst ` set (transports s) \<subseteq> set (map t_id (t_heap s))"
proof
  fix k assume "k \<in> fst ` set (transports s)"
  then obtain t where "(k, t) \<in> set (transports s)" by auto
  from transports_okD(1,2) [OF assms this] show "k \<in> set (map t_id (t_heap s))"
    by (auto simp: in_set_conv_nth intro!: exI [of _ t])
qed

lemma stored_producer_ids:
  assumes "producers_ok s"
  shows "fst ` set (producers s) \<subseteq> set (map p_id (p_heap s))"
proof
  fix k assume "k \<in> fst ` set (producers s)"
  then obtain p where "(k, p) \<in> set (producers s)" by auto
  from producers_okD(1,2) [OF assms this] show "k \<in> set (map p_id (p_heap s))"
    by (auto simp: in_set_conv_nth intro!: exI [of _ p])
qed

lemma wf_new_transport:
  assumes "well_formed s" and "newId \<notin> set (map t_id (t_heap s))"
  shows "well_formed (transports_set newId (length (t_heap s))
               (s\<lparr>t_heap := t_heap s @ [\<lparr>t_id = newId, t_closed = False\<rparr>]\<rparr>))"
proof -
  let ?s' = "transports_set newId (length (t_heap s))
               (s\<lparr>t_heap := t_heap s @ [\<lparr>t_id = newId, t_closed = False\<rparr>]\<rparr>)"
  have tok: "transports_ok s" and pok: "producers_ok s" and hok: "heaps_ok s"
    and qok: "list_all (pending_call_ok s) (pending s)"
    using assms(1) by (simp_all add: well_formed_def)
  have fresh: "newId \<notin> fst ` set (transports s)"
    using stored_transport_ids [OF tok] assms(2) by auto
  have tr: "transports ?s' = transports s @ [(newId, length (t_heap s))]"
    by (simp add: transports_set_def update_fresh [OF fresh])
  have th: "t_heap ?s' = t_heap s @ [\<lparr>t_id = newId, t_closed = False\<rparr>]"
    by (simp add: transports_set_def)
  have "transports_ok ?s'"
    unfolding transports_ok_def tr th
    using tok fresh by (auto simp: transports_ok_def list_all_iff nth_append)
  moreover have "producers_ok ?s'"
    using pok by (simp add: producers_ok_def transports_set_def)
  moreover have "heaps_ok ?s'"
    using hok assms(2)
    by (auto simp: heaps_ok_def th list_all_iff nth_append transports_set_def)
  moreover have "list_all (pending_call_ok ?s') (pending ?s')"
    unfolding list_all_iff
  proof
    fix c assume "c \<in> set (pending ?s')"
    then have "pending_call_ok s c" using qok by (simp add: list_all_iff transports_set_def)
    then show "pending_call_ok ?s' c" by (cases c) (simp_all add: th nth_append)
  qed
  ultimately show ?thesis by (simp add: well_formed_def)
qed

lemma wf_new_producer:
  assumes "well_formed s" and "newId \<notin> set (map p_id (p_heap s))"
    and "pending_call_ok s (PProduce sid cb tId kind transport)"
  shows "well_formed (producers_set newId (length (p_heap s))
               (s\<lparr>p_heap := p_heap s @ [\<lparr>p_id = newId, p_closed = False, p_kind = kind,
                      p_transport = transport, transportId = Some tId\<rparr>]\<rparr>))"
proof -
  let ?new = "\<lparr>p_id = newId, p_closed = False, p_kind = kind,
                      p_transport = transport, transportId = Some tId\<rparr>"
  let ?s' = "producers_set newId (length (p_heap s)) (s\<lparr>p_heap := p_heap s @ [?new]\<rparr>)"
  have tok: "transports_ok s" and pok: "producers_ok s" and hok: "heaps_ok s"
    and qok: "list_all (pending_call_ok s) (pending s)"
    using assms(1) by (simp_all add: well_formed_def)
  have fresh: "newId \<notin> fst ` set (producers s)"
    using stored_producer_ids [OF pok] assms(2) by auto
  have pr: "producers ?s' = producers s @ [(newId, length (p_heap s))]"
    by (simp add: producers_set_def update_fresh [OF fresh])
  have ph: "p_heap ?s' = p_heap s @ [?new]"
    by (simp add: producers_set_def)
  have "producers_ok ?s'"
    unfolding producers_ok_def pr ph
    using pok fresh by (auto simp: producers_ok_def list_all_iff nth_append)
  moreover have "transports_ok ?s'"
    using tok by (simp add: transports_ok_def producers_set_def)
  moreover have "heaps_ok ?s'"
    using hok assms(2,3)
    by (auto simp: heaps_ok_def ph list_all_iff producers_set_def)
  moreover have "pending_call_ok ?s' = pending_call_ok s"
    by (rule pending_call_ok_cong) (simp_all add: producers_set_def)
  then have "list_all (pending_call_ok ?s') (pending ?s')"
    using qok by (simp add: producers_set_def)
  ultimately show ?thesis by (simp add: well_formed_def)
qed

lemma wf_acks_if [simp]:
  "well_formed ((if cb then (\<lambda>s'. s'\<lparr>acks := acks s' @ [x]\<rparr>) else uncaught) s) = well_formed s"
  by simp

lemma wf_resume:
  assumes "well_formed s" and "pending_call_ok s c" and "engine_may_settle c out s"
  shows "well_formed (resume c out s)"
proof (cases out)
  case (Rejected msg)
  then show ?thesis using assms(1) by (simp add: resume_Rejected)
next
  case (Resolved newId)
  show ?thesis
  proof (cases c)
    case (PCreate sid cb)
    then show ?thesis
      using assms Resolved wf_new_transport [of s newId]
      by (simp add: resume_Resolved)
  next
    case (PConnect sid cb t)
    then show ?thesis
      using assms Resolved by (simp add: resume_Resolved)
  next
    case (PProduce sid cb tId kind t)
    then show ?thesis
      using assms Resolved wf_new_producer [of s newId sid cb tId kind t]
      by (simp add: resume_Resolved)
  qed
qed

lemma wf_reject_all: "well_formed s \<Longrightarrow> well_formed (reject_all msgs cs s)"
  by (induction msgs cs s rule: reject_all.induct) (simp_all add: resume_Rejected)

lemma wf_handle: "well_formed s \<Longrightarrow> well_formed (handle e s)"
proof (cases e)
  case (Settle n out)
  assume w: "well_formed s"
  show ?thesis
  proof (cases "n < length (pending s) \<and> engine_may_settle (pending s ! n) out s")
    case True
    let ?s1 = "s\<lparr>pending := remove_nth n (pending s)\<rparr>"
    have "pending_call_ok s (pending s ! n)"
      using w True by (simp add: well_formed_def list_all_length)
    then have "pending_call_ok ?s1 (pending s ! n)"
      by (simp add: pending_call_ok_cong [of ?s1 s])
    moreover have "engine_may_settle (pending s ! n) out ?s1"
      using True by (cases "pending s ! n"; cases out) simp_all
    ultimately show ?thesis
      using Settle True wf_remove_nth [OF w, of n] by (simp add: wf_resume)
  next
    case False
    then show ?thesis using Settle w by auto
  qed
next
  case (WorkerDied msgs)
  assume w: "well_formed s"
  have "well_formed ((on_died (worker_closed s))\<lparr>pending := []\<rparr>)"
    by (rule wf_pending_upd) (simp_all add: on_died_def wf_worker_closed w)
  then show ?thesis using WorkerDied by (simp add: wf_reject_all)
next
  case (GetRouterRtpCapabilities sid cb)
  assume "well_formed s"
  then show ?thesis
    using GetRouterRtpCapabilities
    by (simp add: getRouterRtpCapabilities_def callback_def)
qed (simp_all add: wf_disconnect wf_createWebRtcTransport_start
       wf_connectTransport_start wf_produce_start on_dtlsstatechange_def wf_transport_close
       timer_fire_def split: list.splits)

lemma wf_step: "well_formed s \<Longrightarrow> well_formed (step e s)"
  by (simp add: step_def wf_handle)

lemma wf_run: "well_formed s \<Longrightarrow> well_formed (run es s)"
  by (induction es arbitrary: s) (simp_all add: run_def wf_step)

lemma well_formed_producer_transport_ids:
  assumes "well_formed s"
  shows "producer_transport_ids s"
  unfolding producer_transport_ids_def list_all_iff
proof
  fix e assume e: "e \<in> set (producers s)"
  obtain k p where kp: "e = (k, p)" by (cases e)
  have "producers_ok s" "heaps_ok s" using assms by (simp_all add: well_formed_def)
  from heaps_okD(2) [OF this(2) producers_okD(1) [OF this(1) e [unfolded kp]]]
  show "case e of (k, p) \<Rightarrow> transportId (p_heap s ! p)
                          = Some (t_id (t_heap s ! p_transport (p_heap s ! p)))"
    by (simp add: kp)
qed

subsection \<open>The footprint of closing and the cascade from a transport to its producers\<close>

lemma only_closes_refl [simp]: "only_closes s s"
  by (simp add: only_closes_def)

lemma only_closes_trans: "only_closes s s' \<Longrightarrow> only_closes s' s'' \<Longrightarrow> only_closes s s''"
  unfolding only_closes_def by (intro conjI allI; (blast | simp))

lemma only_closes_on_transportclose: "only_closes s (on_transportclose p s)"
  by (auto simp: only_closes_def producer_close_closed set_delete)

lemma only_closes_producer_transportClosed: "only_closes s (producer_transportClosed p s)"
  by (simp add: producer_transportClosed_eq only_closes_on_transportclose)

lemma only_closes_fold_transportClosed: "only_closes s (fold producer_transportClosed ps s)"
proof (induction ps arbitrary: s)
  case Nil
  show ?case by simp
next
  case (Cons p ps)
  show ?case
    using only_closes_trans [OF only_closes_producer_transportClosed Cons.IH] by simp
qed

lemma only_closes_transport_close: "only_closes s (transport_close t s)"
proof (cases "t_closed (t_heap s ! t)")
  case True
  then show ?thesis by (simp add: transport_close_def)
next
  case False
  have "only_closes s (fold producer_transportClosed (producers_of t s) s)"
    by (rule only_closes_fold_transportClosed)
  then show ?thesis
    using False
    by (auto simp: only_closes_def transport_close_eq nth_list_update_any set_delete)
qed

lemma only_closes_transports_delete: "only_closes s (transports_delete k s)"
  by (auto simp: only_closes_def set_delete)

lemma only_closes_inner_body: "only_closes s (producers_delete k (producer_close p s))"
  by (auto simp: only_closes_def producer_close_closed set_delete)

lemma only_closes_disconnect_producers: "only_closes s (disconnect_producers tId es s)"
proof (induction tId es s rule: disconnect_producers.induct)
  case (1 tId s)
  show ?case by simp
next
  case (2 tId producerId producer es s)
  let ?s1 = "if map_of (producers s) producerId = Some producer
                \<and> transportId (p_heap s ! producer) = Some tId
             then producers_delete producerId (producer_close producer s) else s"
  have "only_closes s ?s1" by (simp add: only_closes_inner_body)
  from only_closes_trans [OF this "2.IH"] show ?case by simp
qed

lemma only_closes_outer_body:
  "only_closes s (transports_delete tId (transport_close t (disconnect_producers tId ps s)))"
  by (rule only_closes_trans [OF only_closes_disconnect_producers
        only_closes_trans [OF only_closes_transport_close only_closes_transports_delete]])

lemma only_closes_disconnect_transports: "only_closes s (disconnect_transports es s)"
proof (induction es s rule: disconnect_transports.induct)
  case (1 s)
  show ?case by simp
next
  case (2 tId transport es s)
  let ?s1 = "if map_of (transports s) tId = Some transport
             then transports_delete tId
                    (transport_close transport (disconnect_producers tId (producers s) s))
             else s"
  have "only_closes s ?s1" by (simp add: only_closes_outer_body)
  from only_closes_trans [OF this "2.IH"] show ?case by simp
qed

lemma only_closes_disconnect: "only_closes s (disconnect sid s)"
  by (simp add: disconnect_def only_closes_disconnect_transports)

lemma only_closesD:
  assumes "only_closes s s'"
  shows "length (t_heap s') = length (t_heap s)" "length (p_heap s') = length (p_heap s)"
    "t_id (t_heap s' ! u) = t_id (t_heap s ! u)"
    "t_closed (t_heap s ! u) \<Longrightarrow> t_closed (t_heap s' ! u)"
    "p_id (p_heap s' ! q) = p_id (p_heap s ! q)"
    "p_transport (p_heap s' ! q) = p_transport (p_heap s ! q)"
    "transportId (p_heap s' ! q) = transportId (p_heap s ! q)"
    "p_closed (p_heap s ! q) \<Longrightarrow> p_closed (p_heap s' ! q)"
    "set (transports s') \<subseteq> set (transports s)"
    "set (producers s') \<subseteq> set (producers s)"
  using assms by (simp_all add: only_closes_def)

lemma only_closes_transport_routerClosed: "only_closes s (transport_routerClosed t s)"
proof (cases "t_closed (t_heap s ! t)")
  case True
  then show ?thesis by (simp add: transport_routerClosed_def)
next
  case False
  have "only_closes s (fold producer_transportClosed (producers_of t s) s)"
    by (rule only_closes_fold_transportClosed)
  then show ?thesis
    using False
    by (auto simp: only_closes_def transport_routerClosed_eq nth_list_update_any)
qed

lemma only_closes_worker_closed: "only_closes s (worker_closed s)"
proof -
  have "only_closes s (fold transport_routerClosed ts s)" for ts
  proof (induction ts arbitrary: s)
    case Nil
    show ?case by simp
  next
    case (Cons t ts)
    show ?case
      using only_closes_trans [OF only_closes_transport_routerClosed Cons] by simp
  qed
  then show ?thesis by (simp add: worker_closed_def)
qed







text \<open>Stored producers stay open: whatever closes one also deletes its key.\<close>

lemma producers_openD:
  "producers_open s \<Longrightarrow> (k, p) \<in> set (producers s) \<Longrightarrow> \<not> p_closed (p_heap s ! p)"
  by (auto simp: producers_open_def list_all_iff)

lemma open_on_transportclose:
  assumes "producers_ok s" and "producers_open s"
  shows "producers_open (on_transportclose p s)"
  unfolding producers_open_def list_all_iff
proof
  fix e assume e: "e \<in> set (producers (on_transportclose p s))"
  obtain k q where kq: "e = (k, q)" by (cases e)
  from e kq have mem: "(k, q) \<in> set (producers s)" and ne: "k \<noteq> p_id (p_heap s ! p)"
    by (auto simp: set_delete)
  from producers_okD [OF assms(1) mem] ne have "q \<noteq> p" by auto
  with producers_openD [OF assms(2) mem]
  show "case e of (k, pa) \<Rightarrow> \<not> p_closed (p_heap (on_transportclose p s) ! pa)"
    by (simp add: kq producer_close_closed)
qed

lemma open_producer_transportClosed:
  "well_formed s \<Longrightarrow> producers_open s \<Longrightarrow> producers_open (producer_transportClosed p s)"
  by (simp add: producer_transportClosed_eq open_on_transportclose well_formed_def)

lemma open_fold_transportClosed:
  "well_formed s \<Longrightarrow> producers_open s \<Longrightarrow>
     producers_open (fold producer_transportClosed ps s)"
  by (induction ps arbitrary: s)
     (simp_all add: open_producer_transportClosed wf_producer_transportClosed)

lemma producers_open_cong:
  "producers s' = producers s \<Longrightarrow> p_heap s' = p_heap s \<Longrightarrow>
     producers_open s' = producers_open s"
  by (simp add: producers_open_def)

lemma open_transport_close:
  assumes "well_formed s" and "producers_open s"
  shows "producers_open (transport_close t s)"
proof (cases "t_closed (t_heap s ! t)")
  case True
  then show ?thesis using assms(2) by (simp add: transport_close_def)
next
  case False
  have "producers_open (transport_close t s)
          = producers_open (fold producer_transportClosed (producers_of t s) s)"
    using False by (intro producers_open_cong) (simp_all add: transport_close_producers)
  then show ?thesis using assms by (simp add: open_fold_transportClosed)
qed

lemma open_transport_routerClosed:
  assumes "well_formed s" and "producers_open s"
  shows "producers_open (transport_routerClosed t s)"
proof (cases "t_closed (t_heap s ! t)")
  case True
  then show ?thesis using assms(2) by (simp add: transport_routerClosed_def)
next
  case False
  have "producers_open (transport_routerClosed t s)
          = producers_open (fold producer_transportClosed (producers_of t s) s)"
    using False by (intro producers_open_cong) (simp_all add: transport_routerClosed_eq)
  then show ?thesis using assms by (simp add: open_fold_transportClosed)
qed

lemma open_worker_closed:
  assumes "well_formed s" and "producers_open s"
  shows "producers_open (worker_closed s)"
proof -
  have "well_formed s \<Longrightarrow> producers_open s \<Longrightarrow>
          producers_open (fold transport_routerClosed ts s)" for ts
    by (induction ts arbitrary: s)
       (simp_all add: open_transport_routerClosed wf_transport_routerClosed)
  with assms show ?thesis by (simp add: worker_closed_def)
qed

lemma open_disconnect_producers:
  "well_formed s \<Longrightarrow> producers_open s \<Longrightarrow> producers_open (disconnect_producers tId es s)"
proof (induction tId es s rule: disconnect_producers.induct)
  case (1 tId s)
  then show ?case by simp
next
  case (2 tId producerId producer es s)
  then show ?case
    by (auto simp: disconnect_producers_body wf_on_transportclose open_on_transportclose
          well_formed_def [of s])
qed

lemma open_transports_delete [simp]:
  "producers_open (transports_delete k s) = producers_open s"
  by (simp add: producers_open_def)

lemma open_disconnect_transports:
  "well_formed s \<Longrightarrow> producers_open s \<Longrightarrow> producers_open (disconnect_transports es s)"
  by (induction es s rule: disconnect_transports.induct)
     (simp_all add: open_transport_close open_disconnect_producers wf_transports_delete
        wf_transport_close wf_disconnect_producers)

lemma open_disconnect:
  "well_formed s \<Longrightarrow> producers_open s \<Longrightarrow> producers_open (disconnect sid s)"
  by (simp add: disconnect_def open_disconnect_transports)

lemma open_new_producer:
  assumes "well_formed s" and "producers_open s" and "newId \<notin> set (map p_id (p_heap s))"
  shows "producers_open (producers_set newId (length (p_heap s))
               (s\<lparr>p_heap := p_heap s @ [\<lparr>p_id = newId, p_closed = False, p_kind = kind,
                      p_transport = transport, transportId = Some tId\<rparr>]\<rparr>))"
proof -
  have pok: "producers_ok s" using assms(1) by (simp add: well_formed_def)
  have fresh: "newId \<notin> fst ` set (producers s)"
    using stored_producer_ids [OF pok] assms(3) by auto
  show ?thesis
    using assms(2) pok
    by (auto simp: producers_open_def producers_set_def update_fresh [OF fresh] list_all_iff
          nth_append producers_ok_def)
qed

lemma open_resume:
  assumes "well_formed s" and "producers_open s" and "engine_may_settle c out s"
  shows "producers_open (resume c out s)"
proof (cases out)
  case (Rejected msg)
  then show ?thesis
    using assms(2) by (simp add: producers_open_cong [of "resume c (Rejected msg) s" s])
next
  case (Resolved newId)
  show ?thesis
  proof (cases c)
    case (PCreate sid cb)
    then show ?thesis
      using assms(2) Resolved
      by (simp add: resume_Resolved producers_open_def uncaught_def transports_set_def)
  next
    case (PConnect sid cb t)
    then show ?thesis
      using assms(2) Resolved
      by (simp add: resume_Resolved producers_open_def uncaught_def)
  next
    case (PProduce sid cb tId kind t)
    then show ?thesis
      using assms Resolved open_new_producer [of s newId kind t tId]
      by (simp add: resume_Resolved producers_open_def uncaught_def)
  qed
qed

lemma open_handle:
  assumes "well_formed s" and "producers_open s"
  shows "producers_open (handle e s)"
proof (cases e)
  case (Settle n out)
  show ?thesis
  proof (cases "n < length (pending s) \<and> engine_may_settle (pending s ! n) out s")
    case True
    let ?s1 = "s\<lparr>pending := remove_nth n (pending s)\<rparr>"
    have "producers_open ?s1" using assms(2) by (simp add: producers_open_def)
    moreover have "engine_may_settle (pending s ! n) out ?s1"
      using True by (cases "pending s ! n"; cases out) simp_all
    ultimately show ?thesis
      using Settle True wf_remove_nth [OF assms(1), of n] by (simp add: open_resume)
  next
    case False
    then show ?thesis using Settle assms(2) by auto
  qed
next
  case (WorkerDied msgs)
  have "producers_open (handle e s) = producers_open (worker_closed s)"
    unfolding WorkerDied by (rule producers_open_cong) (simp_all add: on_died_def)
  then show ?thesis using assms by (simp add: open_worker_closed)
next
  case (Disconnect sid)
  then show ?thesis using assms by (simp add: open_disconnect)
next
  case (DtlsStateChange t st)
  then show ?thesis using assms by (simp add: on_dtlsstatechange_def open_transport_close)
qed (use assms(2) in \<open>auto simp: producers_open_def getRouterRtpCapabilities_def
        createWebRtcTransport_start_def connectTransport_start_def produce_start_def
        try_catch_def callback_def uncaught_def timer_fire_def
        split: option.splits list.splits\<close>)

lemma open_run:
  "well_formed s \<Longrightarrow> producers_open s \<Longrightarrow> producers_open (run es s)"
  by (induction es arbitrary: s) (simp_all add: run_def step_def open_handle wf_handle)


subsection \<open>The disconnect loops\<close>

lemma wf_outer_body:
  "well_formed s \<Longrightarrow> well_formed (transports_delete tId (transport_close t (disconnect_producers tId ps s)))"
  by (simp add: wf_transports_delete wf_transport_close wf_disconnect_producers)

lemma outer_body_transports:
  assumes "well_formed s" and "map_of (transports s) tId = Some t"
  shows "transports (transports_delete tId (transport_close t (disconnect_producers tId ps s)))
           = AList.delete tId (transports s)"
proof -
  have "(tId, t) \<in> set (transports s)" using assms(2) by (rule map_of_SomeD)
  moreover have "transports_ok s" using assms(1) by (simp add: well_formed_def)
  ultimately have "t_id (t_heap s ! t) = tId" by (rule transports_okD(2) [rotated])
  then show ?thesis by (simp add: transport_close_transports AList.delete_idem)
qed

text \<open>
  The inner loop of the disconnect handler: every entry of the producers map whose
  object carries the transport's id is closed and deleted.
\<close>

lemma disconnect_producers_removes:
  assumes "producers_ok s" and "distinct (map fst es)" and "set es \<subseteq> set (producers s)"
    and "(k, p) \<in> set es" and "transportId (p_heap s ! p) = Some tId"
  shows "k \<notin> fst ` set (producers (disconnect_producers tId es s))
       \<and> p_closed (p_heap (disconnect_producers tId es s) ! p)"
  using assms
proof (induction es arbitrary: s)
  case Nil
  then show ?case by simp
next
  case (Cons e es)
  obtain k0 p0 where e: "e = (k0, p0)" by (cases e)
  have mem0: "(k0, p0) \<in> set (producers s)" using Cons.prems(3) e by simp
  have d: "distinct (map fst (producers s))" using Cons.prems(1) by (simp add: producers_ok_def)
  have m0: "map_of (producers s) k0 = Some p0" using d mem0 by simp
  note v0 = producers_okD [OF Cons.prems(1) mem0]
  let ?s1 = "if transportId (p_heap s ! p0) = Some tId
             then producers_delete k0 (producer_close p0 s) else s"
  have run: "disconnect_producers tId (e # es) s = disconnect_producers tId es ?s1"
    using m0 by (simp add: e)
  have ocr: "only_closes ?s1 (disconnect_producers tId es ?s1)"
    by (rule only_closes_disconnect_producers)
  show ?case
  proof (cases "(k, p) = (k0, p0)")
    case True
    with Cons.prems(5) have s1: "?s1 = producers_delete k0 (producer_close p0 s)" by simp
    have "k0 \<notin> fst ` set (producers ?s1)"
      unfolding s1 by (simp add: AList.delete_notin_dom)
    moreover have "p_closed (p_heap ?s1 ! p0)"
      unfolding s1 using v0(1) by (simp add: producer_close_closed)
    ultimately show ?thesis
      unfolding run using True only_closesD(8,10) [OF ocr] by auto
  next
    case False
    with Cons.prems(4) e have mem: "(k, p) \<in> set es" by auto
    have pok1: "producers_ok ?s1"
      using Cons.prems(1) producers_ok_on_transportclose [of s p0] v0(2)
      by (simp add: on_transportclose_def)
    have d1: "distinct (map fst es)" using Cons.prems(2) by simp
    have "k0 \<notin> fst ` set es" using Cons.prems(2) e by simp
    then have sub1: "set es \<subseteq> set (producers ?s1)"
      using Cons.prems(3) by (auto simp: set_delete)
    have t1: "transportId (p_heap ?s1 ! p) = Some tId" using Cons.prems(5) by simp
    from Cons.IH [OF pok1 d1 sub1 mem t1] show ?thesis unfolding run .
  qed
qed

text \<open>
  A producer that was stored under its id is, at every point of the teardown, either
  still stored or closed.
\<close>

lemma kept_or_closed_on_transportclose:
  assumes "well_formed s" and "p < length (p_heap s)" and "q < length (p_heap s)"
    and "(p_id (p_heap s ! p), p) \<in> set (producers s) \<or> p_closed (p_heap s ! p)"
  shows "(p_id (p_heap s ! p), p) \<in> set (producers (on_transportclose q s))
       \<or> p_closed (p_heap (on_transportclose q s) ! p)"
proof (cases "q = p")
  case True
  then show ?thesis using assms(2) by (simp add: producer_close_closed)
next
  case False
  have "distinct (map p_id (p_heap s))" using assms(1) by (simp add: well_formed_def heaps_ok_def)
  with False assms(2,3) have "p_id (p_heap s ! q) \<noteq> p_id (p_heap s ! p)"
    by (auto simp: distinct_conv_nth)
  then show ?thesis using assms(4) by (auto simp: set_delete producer_close_closed)
qed

lemma kept_or_closed_fold:
  assumes "well_formed s" and "p < length (p_heap s)" and "\<forall>q\<in>set ps. q < length (p_heap s)"
    and "(p_id (p_heap s ! p), p) \<in> set (producers s) \<or> p_closed (p_heap s ! p)"
  shows "(p_id (p_heap s ! p), p) \<in> set (producers (fold producer_transportClosed ps s))
       \<or> p_closed (p_heap (fold producer_transportClosed ps s) ! p)"
  using assms
proof (induction ps arbitrary: s)
  case Nil
  then show ?case by simp
next
  case (Cons q ps)
  let ?s1 = "producer_transportClosed q s"
  have oc: "only_closes s ?s1" by (rule only_closes_producer_transportClosed)
  have k1: "(p_id (p_heap s ! p), p) \<in> set (producers ?s1) \<or> p_closed (p_heap ?s1 ! p)"
    using kept_or_closed_on_transportclose [OF Cons.prems(1,2), of q] Cons.prems(3,4)
    by (simp add: producer_transportClosed_eq)
  have "(p_id (p_heap ?s1 ! p), p) \<in> set (producers (fold producer_transportClosed ps ?s1))
       \<or> p_closed (p_heap (fold producer_transportClosed ps ?s1) ! p)"
    using Cons.prems k1
    by (intro Cons.IH) (simp_all add: wf_producer_transportClosed only_closesD(5) [OF oc])
  then show ?case by (simp add: only_closesD(5) [OF oc])
qed

lemma kept_or_closed_transport_close:
  assumes "well_formed s" and "p < length (p_heap s)"
    and "(p_id (p_heap s ! p), p) \<in> set (producers s) \<or> p_closed (p_heap s ! p)"
  shows "(p_id (p_heap s ! p), p) \<in> set (producers (transport_close t s))
       \<or> p_closed (p_heap (transport_close t s) ! p)"
proof -
  have "\<forall>q\<in>set (producers_of t s). q < length (p_heap s)" by (simp add: producers_of_def)
  from kept_or_closed_fold [OF assms(1,2) this assms(3)] assms(3)
  show ?thesis by (simp add: transport_close_producers)
qed

lemma kept_or_closed_disconnect_producers:
  assumes "well_formed s" and "p < length (p_heap s)"
    and "(p_id (p_heap s ! p), p) \<in> set (producers s) \<or> p_closed (p_heap s ! p)"
  shows "(p_id (p_heap s ! p), p) \<in> set (producers (disconnect_producers tId es s))
       \<or> p_closed (p_heap (disconnect_producers tId es s) ! p)"
  using assms
proof (induction tId es s rule: disconnect_producers.induct)
  case (1 tId s)
  then show ?case by simp
next
  case (2 tId producerId producer es s)
  let ?c = "map_of (producers s) producerId = Some producer
                \<and> transportId (p_heap s ! producer) = Some tId"
  let ?s1 = "if ?c then producers_delete producerId (producer_close producer s) else s"
  have pok: "producers_ok s" using "2.prems"(1) by (simp add: well_formed_def)
  have s1: "?s1 = (if ?c then on_transportclose producer s else s)"
    using disconnect_producers_body [OF pok] by simp
  have v: "producer < length (p_heap s)" if ?c
    using that producers_okD(1) [OF pok map_of_SomeD] by blast
  have w1: "well_formed ?s1" unfolding s1 using "2.prems"(1) by (simp add: wf_on_transportclose)
  have k1: "(p_id (p_heap s ! p), p) \<in> set (producers ?s1) \<or> p_closed (p_heap ?s1 ! p)"
    unfolding s1
    using kept_or_closed_on_transportclose [OF "2.prems"(1,2), of producer] "2.prems"(3) v
    by auto
  have id1: "p_id (p_heap ?s1 ! p) = p_id (p_heap s ! p)" by simp
  have "(p_id (p_heap ?s1 ! p), p) \<in> set (producers (disconnect_producers tId es ?s1))
       \<or> p_closed (p_heap (disconnect_producers tId es ?s1) ! p)"
    using w1 "2.prems"(2) k1 by (intro "2.IH") (simp_all only: id1, simp)
  then show ?case by (simp only: id1 disconnect_producers.simps)
qed

lemma kept_or_closed_outer_body:
  assumes "well_formed s" and "p < length (p_heap s)"
    and "(p_id (p_heap s ! p), p) \<in> set (producers s) \<or> p_closed (p_heap s ! p)"
  shows "(p_id (p_heap s ! p), p)
           \<in> set (producers (transports_delete tId
                  (transport_close t (disconnect_producers tId ps s))))
       \<or> p_closed (p_heap (transports_delete tId
                  (transport_close t (disconnect_producers tId ps s))) ! p)"
proof -
  let ?si = "disconnect_producers tId ps s"
  have oc: "only_closes s ?si" by (rule only_closes_disconnect_producers)
  have "(p_id (p_heap ?si ! p), p) \<in> set (producers ?si) \<or> p_closed (p_heap ?si ! p)"
    using kept_or_closed_disconnect_producers [OF assms]
    by (simp add: only_closesD(5) [OF oc])
  from kept_or_closed_transport_close [OF wf_disconnect_producers [OF assms(1)] _ this, of t]
       assms(2)
  show ?thesis by (simp add: only_closesD(5) [OF oc])
qed

lemma stored_under_id:
  assumes "well_formed s" and "p < length (p_heap s)"
    and "(p_id (p_heap s ! p), p) \<notin> set (producers s)"
  shows "p_id (p_heap s ! p) \<notin> fst ` set (producers s)"
proof
  assume "p_id (p_heap s ! p) \<in> fst ` set (producers s)"
  then obtain q where q: "(p_id (p_heap s ! p), q) \<in> set (producers s)" by auto
  have pok: "producers_ok s" using assms(1) by (simp add: well_formed_def)
  have "distinct (map p_id (p_heap s))" using assms(1) by (simp add: well_formed_def heaps_ok_def)
  with producers_okD [OF pok q] assms(2) have "q = p" by (auto simp: distinct_conv_nth)
  with q assms(3) show False by simp
qed

lemma outer_body_removes:
  assumes "well_formed s" and "map_of (transports s) tId = Some t"
    and "p < length (p_heap s)" and "transportId (p_heap s ! p) = Some tId"
    and "(p_id (p_heap s ! p), p) \<in> set (producers s) \<or> p_closed (p_heap s ! p)"
  shows "p_id (p_heap s ! p)
           \<notin> fst ` set (producers (transports_delete tId
                  (transport_close t (disconnect_producers tId (producers s) s))))
       \<and> p_closed (p_heap (transports_delete tId
                  (transport_close t (disconnect_producers tId (producers s) s))) ! p)"
proof -
  let ?k = "p_id (p_heap s ! p)"
  let ?si = "disconnect_producers tId (producers s) s"
  have pok: "producers_ok s" using assms(1) by (simp add: well_formed_def)
  have d: "distinct (map fst (producers s))" using pok by (simp add: producers_ok_def)
  have oci: "only_closes s ?si" by (rule only_closes_disconnect_producers)
  have inner: "?k \<notin> fst ` set (producers ?si) \<and> p_closed (p_heap ?si ! p)"
  proof (cases "(?k, p) \<in> set (producers s)")
    case True
    from disconnect_producers_removes [OF pok d subset_refl True assms(4)] show ?thesis .
  next
    case False
    with assms(5) have "p_closed (p_heap s ! p)" by simp
    moreover have "?k \<notin> fst ` set (producers s)"
      using stored_under_id [OF assms(1,3) False] .
    ultimately show ?thesis using only_closesD(8,10) [OF oci] by auto
  qed
  have "only_closes ?si (transports_delete tId (transport_close t ?si))"
    by (rule only_closes_trans [OF only_closes_transport_close only_closes_transports_delete])
  from only_closesD(8,10) [OF this] inner show ?thesis by auto
qed

lemma disconnect_transports_visits:
  assumes "well_formed s" and "distinct (map fst es)" and "(tId, t) \<in> set es"
    and "map_of (transports s) tId = Some t"
  shows "t_closed (t_heap (disconnect_transports es s) ! t)"
    and "p < length (p_heap s) \<Longrightarrow> transportId (p_heap s ! p) = Some tId \<Longrightarrow>
         (p_id (p_heap s ! p), p) \<in> set (producers s) \<or> p_closed (p_heap s ! p) \<Longrightarrow>
         p_id (p_heap s ! p) \<notin> fst ` set (producers (disconnect_transports es s))
         \<and> p_closed (p_heap (disconnect_transports es s) ! p)"
proof -
  have "t_closed (t_heap (disconnect_transports es s) ! t)
      \<and> (p < length (p_heap s) \<longrightarrow> transportId (p_heap s ! p) = Some tId \<longrightarrow>
         (p_id (p_heap s ! p), p) \<in> set (producers s) \<or> p_closed (p_heap s ! p) \<longrightarrow>
         p_id (p_heap s ! p) \<notin> fst ` set (producers (disconnect_transports es s))
         \<and> p_closed (p_heap (disconnect_transports es s) ! p))"
    using assms
  proof (induction es arbitrary: s)
    case Nil
    then show ?case by simp
  next
    case (Cons e es)
    obtain k' t' where e: "e = (k', t')" by (cases e)
    let ?body = "transports_delete k'
                   (transport_close t' (disconnect_producers k' (producers s) s))"
    let ?s1 = "if map_of (transports s) k' = Some t' then ?body else s"
    have run: "disconnect_transports (e # es) s = disconnect_transports es ?s1"
      by (simp add: e)
    have oc1: "only_closes s ?s1" by (simp add: only_closes_outer_body)
    have ocr: "only_closes ?s1 (disconnect_transports es ?s1)"
      by (rule only_closes_disconnect_transports)
    have tok: "transports_ok s" using Cons.prems(1) by (simp add: well_formed_def)
    have tv: "t < length (t_heap s)"
      using transports_okD(1) [OF tok map_of_SomeD [OF Cons.prems(4)]] .
    show ?case
    proof (cases "k' = tId")
      case True
      with Cons.prems(2,3) e have "t' = t" by (auto simp: image_iff)
      with True Cons.prems(4) have s1: "?s1 = ?body" by simp
      have c1: "t_closed (t_heap ?s1 ! t)"
        unfolding s1 using tv \<open>t' = t\<close> by (simp add: transport_close_t_closed)
      have c2: "p_id (p_heap s ! p) \<notin> fst ` set (producers ?s1) \<and> p_closed (p_heap ?s1 ! p)"
        if "p < length (p_heap s)" "transportId (p_heap s ! p) = Some tId"
           "(p_id (p_heap s ! p), p) \<in> set (producers s) \<or> p_closed (p_heap s ! p)"
        unfolding s1
        using outer_body_removes [OF Cons.prems(1,4) that] True \<open>t' = t\<close> by simp
      show ?thesis
        unfolding run
        using only_closesD(4) [OF ocr c1] only_closesD(8,10) [OF ocr] c2 by blast
    next
      case False
      with Cons.prems(3) e have mem: "(tId, t) \<in> set es" by auto
      have d: "distinct (map fst es)" using Cons.prems(2) by simp
      have w1: "well_formed ?s1" using Cons.prems(1) by (simp add: wf_outer_body)
      have m1: "map_of (transports ?s1) tId = Some t"
        using Cons.prems(4) False outer_body_transports [OF Cons.prems(1)] by auto
      have k1: "(p_id (p_heap s ! p), p) \<in> set (producers ?s1) \<or> p_closed (p_heap ?s1 ! p)"
        if "p < length (p_heap s)"
           "(p_id (p_heap s ! p), p) \<in> set (producers s) \<or> p_closed (p_heap s ! p)"
        using kept_or_closed_outer_body [OF Cons.prems(1) that] that(2) by auto
      note ih = Cons.IH [OF w1 d mem m1]
      have A: "t_closed (t_heap (disconnect_transports es ?s1) ! t)" using ih by blast
      have B: "p_id (p_heap s ! p) \<notin> fst ` set (producers (disconnect_transports es ?s1))
                 \<and> p_closed (p_heap (disconnect_transports es ?s1) ! p)"
        if a: "p < length (p_heap s)" "transportId (p_heap s ! p) = Some tId"
              "(p_id (p_heap s ! p), p) \<in> set (producers s) \<or> p_closed (p_heap s ! p)"
      proof -
        have l: "p < length (p_heap ?s1)" using a(1) only_closesD(2) [OF oc1] by simp
        have i: "p_id (p_heap ?s1 ! p) = p_id (p_heap s ! p)"
          by (rule only_closesD(5) [OF oc1])
        have ti: "transportId (p_heap ?s1 ! p) = Some tId"
          using a(2) only_closesD(7) [OF oc1, of p] by simp
        have r: "(p_id (p_heap ?s1 ! p), p) \<in> set (producers ?s1) \<or> p_closed (p_heap ?s1 ! p)"
          using k1 [OF a(1,3)] unfolding i .
        from ih l ti r show ?thesis unfolding i by blast
      qed
      show ?thesis unfolding run using A B by blast
    qed
  qed
  then show "t_closed (t_heap (disconnect_transports es s) ! t)"
    and "p < length (p_heap s) \<Longrightarrow> transportId (p_heap s ! p) = Some tId \<Longrightarrow>
         (p_id (p_heap s ! p), p) \<in> set (producers s) \<or> p_closed (p_heap s ! p) \<Longrightarrow>
         p_id (p_heap s ! p) \<notin> fst ` set (producers (disconnect_transports es s))
         \<and> p_closed (p_heap (disconnect_transports es s) ! p)"
    by simp_all
qed

lemma disconnect_closes_producer:
  assumes "well_formed s" and "(k, p) \<in> set (producers s)"
    and "transportId (p_heap s ! p) = Some tId" and "map_of (transports s) tId = Some t"
  shows "map_of (producers (disconnect sid s)) k = None"
    and "p_closed (p_heap (disconnect sid s) ! p)"
proof -
  have tok: "transports_ok s" and pok: "producers_ok s"
    using assms(1) by (simp_all add: well_formed_def)
  have mem: "(tId, t) \<in> set (transports s)" using assms(4) by (rule map_of_SomeD)
  note p = producers_okD [OF pok assms(2)]
  have d: "distinct (map fst (transports s))" using tok by (simp add: transports_ok_def)
  from disconnect_transports_visits(2) [OF assms(1) d mem assms(4) p(1) assms(3)] assms(2) p(2)
  show "map_of (producers (disconnect sid s)) k = None"
    and "p_closed (p_heap (disconnect sid s) ! p)"
    by (simp_all add: disconnect_def map_of_None_iff)
qed

lemma disconnect_closes_transport:
  assumes "well_formed s" and "(tId, t) \<in> set (transports s)"
  shows "t_closed (t_heap (disconnect sid s) ! t)"
proof -
  have tok: "transports_ok s" using assms(1) by (simp add: well_formed_def)
  then have d: "distinct (map fst (transports s))" by (simp add: transports_ok_def)
  then have "map_of (transports s) tId = Some t" using assms(2) by simp
  from disconnect_transports_visits(1) [OF assms(1) d assms(2) this]
  show ?thesis by (simp add: disconnect_def)
qed


lemma resume_transportId:
  assumes "p < length (p_heap s)"
  shows "transportId (p_heap (resume c out s) ! p) = transportId (p_heap s ! p)"
    and "p < length (p_heap (resume c out s))"
  using assms
  by (cases c; cases out;
      simp add: handler_resume_Rejected resume_Resolved uncaught_def transports_set_def
        producers_set_def nth_append)+

lemma handle_transportId:
  assumes "p < length (p_heap s)"
  shows "transportId (p_heap (handle e s) ! p) = transportId (p_heap s ! p)
       \<and> p < length (p_heap (handle e s))"
proof (cases e)
  case (Disconnect sid)
  then show ?thesis
    using assms only_closesD(2,7) [OF only_closes_disconnect [of s sid]] by simp
next
  case (Settle n out)
  then show ?thesis
    using assms resume_transportId [of p "s\<lparr>pending := remove_nth n (pending s)\<rparr>"
                                     "pending s ! n" out]
    by auto
next
  case (DtlsStateChange t st)
  then show ?thesis
    using assms only_closesD(2,7) [OF only_closes_transport_close [of s t]]
    by (simp add: on_dtlsstatechange_def)
next
  case (WorkerDied msgs)
  then show ?thesis
    using assms only_closesD(2,7) [OF only_closes_worker_closed [of s]]
    by (simp add: on_died_def)
qed (use assms in \<open>auto simp: getRouterRtpCapabilities_def createWebRtcTransport_start_def
        connectTransport_start_def produce_start_def try_catch_def callback_def uncaught_def
        timer_fire_def split: option.splits list.splits\<close>)

lemma run_transportId:
  "p < length (p_heap s) \<Longrightarrow>
     transportId (p_heap (run es s) ! p) = transportId (p_heap s ! p)"
proof (induction es arbitrary: s)
  case Nil
  show ?case by (simp add: run_def)
next
  case (Cons e es)
  have "transportId (p_heap (step e s) ! p) = transportId (p_heap s ! p)
          \<and> p < length (p_heap (step e s))"
    using handle_transportId [OF Cons.prems, of e] Cons.prems by (simp add: step_def)
  with Cons.IH [of "step e s"] show ?case by (simp add: run_Cons)
qed

subsection \<open>The example states are well-formed, and three of them reached from the initial state\<close>

lemma one_stream_reachable:
  "run [CreateWebRtcTransport ''A'' True, Settle 0 (Resolved ''t1''),
        Produce ''A'' (Some (''t1'', Audio)) True, Settle 0 (Resolved ''p1'')] init = one_stream"
  by code_simp

lemma two_streams_reachable:
  "run [Connection ''A'', Connection ''B'',
        CreateWebRtcTransport ''A'' True, Settle 0 (Resolved ''t1''),
        CreateWebRtcTransport ''B'' True, Settle 0 (Resolved ''t2''),
        Produce ''B'' (Some (''t2'', Audio)) True, Settle 0 (Resolved ''p2''),
        Produce ''A'' (Some (''t1'', Video)) True, Settle 0 (Resolved ''p1'')] init = two_streams"
  by code_simp

lemma three_pending_reachable:
  "run [CreateWebRtcTransport ''A'' True, Settle 0 (Resolved ''t1''),
        CreateWebRtcTransport ''B'' True, ConnectTransport ''A'' (Some ''t1'') True,
        Produce ''A'' (Some (''t1'', Audio)) True] init = three_pending"
  by code_simp

lemma wf_one_stream: "well_formed one_stream"
  by (simp add: well_formed_def transports_ok_def producers_ok_def heaps_ok_def one_stream_def)

lemma wf_two_streams: "well_formed two_streams"
  by (simp add: well_formed_def transports_ok_def producers_ok_def heaps_ok_def two_streams_def)

lemma wf_three_pending: "well_formed three_pending"
  by (simp add: well_formed_def transports_ok_def producers_ok_def heaps_ok_def three_pending_def)

lemma wf_stale_stream: "well_formed stale_stream"
  by (simp add: well_formed_def transports_ok_def producers_ok_def heaps_ok_def stale_stream_def)

subsection \<open>The exit code\<close>

lemma step_exits:
  assumes "exit_code s = Some 1 \<or> (exit_code s = None \<and> exit_timers s \<noteq> [])"
  shows "exit_code (step e s) = Some 1
       \<or> (exit_code (step e s) = None \<and> exit_timers (step e s) \<noteq> [])"
proof (cases "exit_code s = None")
  case False
  then show ?thesis using assms by (auto simp: step_def)
next
  case True
  with assms have ne: "exit_timers s \<noteq> []" by simp
  show ?thesis
  proof (cases "e = TimerFire")
    case True
    then show ?thesis
      using \<open>exit_code s = None\<close> ne
      by (cases "exit_timers s") (simp_all add: step_def timer_fire_def)
  next
    case False
    have "exit_timers (handle e s) \<noteq> []"
      using ne handle_exit_timers [OF False, of s] by (cases e) simp_all
    then show ?thesis
      using True handle_exit_code [of e s] by (auto simp: step_def)
  qed
qed

lemma run_exits:
  "exit_code s = Some 1 \<or> (exit_code s = None \<and> exit_timers s \<noteq> []) \<Longrightarrow>
     exit_code (run es s) = Some 1
     \<or> (exit_code (run es s) = None \<and> exit_timers (run es s) \<noteq> [])"
  by (induction es arbitrary: s) (simp_all add: run_def step_exits)

lemma run_acked:
  "exit_code s = None \<Longrightarrow> list_all acked (pending s) \<Longrightarrow> list_all acked_request es \<Longrightarrow>
     TimerFire \<notin> set es \<Longrightarrow>
     exit_code (run es s) = None \<and> list_all acked (pending (run es s))"
proof (induction es arbitrary: s)
  case Nil
  then show ?case by (simp add: run_def)
next
  case (Cons e es)
  from Cons.prems have e: "acked_request e" "e \<noteq> TimerFire" by auto
  from handle_acked [OF Cons.prems(2) e] Cons.prems(1)
  have "exit_code (step e s) = None" "list_all acked (pending (step e s))"
    by (simp_all add: step_def)
  with Cons.IH [of "step e s"] Cons.prems show ?case by (simp add: run_Cons)
qed

section \<open>The claims\<close>

text \<open>
  Claim C1. Running the disconnect handler for a session closes and removes exactly
  the transports and producers of that session. The handler does not do this: its
  loops (lines 142-151) walk the whole \<open>transports\<close> map, although the comment at
  line 141 speaks of the associated transports and producers. Here \<open>A\<close> and \<open>B\<close>
  each create a transport, \<open>B\<close> produces on its own, and \<open>A\<close> disconnects:
  afterwards the transport and the producer of \<open>B\<close> are closed and both maps are
  empty.
\<close>

theorem disconnect_tears_down_other_session:
  "run [Connection ''A'', Connection ''B'',
        CreateWebRtcTransport ''A'' True, Settle 0 (Resolved ''t1''),
        CreateWebRtcTransport ''B'' True, Settle 0 (Resolved ''t2''),
        Produce ''B'' (Some (''t2'', Audio)) True, Settle 0 (Resolved ''p2''),
        Disconnect ''A''] init =
     \<lparr>t_heap = [\<lparr>t_id = ''t1'', t_closed = True\<rparr>, \<lparr>t_id = ''t2'', t_closed = True\<rparr>],
      p_heap = [\<lparr>p_id = ''p2'', p_closed = True, p_kind = Audio, p_transport = 1,
                 transportId = Some ''t2''\<rparr>],
      transports = [], producers = [], pending = [],
      acks = [(''A'', AckParams ''t1''), (''B'', AckParams ''t2''), (''B'', AckId ''p2'')],
      exit_timers = [], exit_code = None\<rparr>"
  by code_simp

text \<open>
  Claim C2. Whatever the two maps hold and whichever socket disconnects, the
  disconnect handler leaves the transports map empty; the socket plays no part in the
  result. In every well-formed state, whether the stored objects are open or closed,
  every stored transport is closed afterwards, and every stored producer whose
  \<open>transportId\<close> is a key of the transports map is closed and gone from the
  producers map. Where the transport is closed already, \<open>close()\<close> does nothing and
  it is the inner loop (lines 143-148) that removes the producer, as in the state
  \<open>stale_stream\<close>.
\<close>

theorem disconnect_tears_down_all:
  "transports (disconnect sid s) = []
   \<and> disconnect sid s = disconnect sid' s
   \<and> (well_formed s \<longrightarrow>
        list_all (\<lambda>(tId, t). t_closed (t_heap (disconnect sid s) ! t)) (transports s)
      \<and> list_all (\<lambda>(k, p). case transportId (p_heap s ! p) of
                     None \<Rightarrow> True
                   | Some tId \<Rightarrow> map_of (transports s) tId \<noteq> None \<longrightarrow>
                       map_of (producers (disconnect sid s)) k = None
                       \<and> p_closed (p_heap (disconnect sid s) ! p)) (producers s))"
proof -
  have "list_all (\<lambda>(tId, t). t_closed (t_heap (disconnect sid s) ! t)) (transports s)"
    if "well_formed s"
    using disconnect_closes_transport [OF that] by (auto simp: list_all_iff)
  moreover
  have "list_all (\<lambda>(k, p). case transportId (p_heap s ! p) of
                     None \<Rightarrow> True
                   | Some tId \<Rightarrow> map_of (transports s) tId \<noteq> None \<longrightarrow>
                       map_of (producers (disconnect sid s)) k = None
                       \<and> p_closed (p_heap (disconnect sid s) ! p)) (producers s)"
    if "well_formed s"
    using disconnect_closes_producer [OF that]
    by (auto simp: list_all_iff split: option.splits)
  moreover have "disconnect sid s = disconnect sid' s" by (simp add: disconnect_def)
  ultimately show ?thesis by simp
qed

theorem disconnect_tears_down_all_witness:
  "(well_formed two_streams
    \<and> transports (disconnect ''A'' two_streams) = []
    \<and> disconnect ''A'' two_streams = disconnect ''B'' two_streams
    \<and> t_closed (t_heap (disconnect ''A'' two_streams) ! 0)
    \<and> t_closed (t_heap (disconnect ''A'' two_streams) ! 1)
    \<and> map_of (transports two_streams) ''t2'' \<noteq> None
    \<and> map_of (producers (disconnect ''A'' two_streams)) ''p2'' = None
    \<and> p_closed (p_heap (disconnect ''A'' two_streams) ! 0)
    \<and> map_of (producers (disconnect ''A'' two_streams)) ''p1'' = None
    \<and> p_closed (p_heap (disconnect ''A'' two_streams) ! 1))
   \<and> (well_formed stale_stream
    \<and> p_closed (p_heap stale_stream ! 0) \<and> t_closed (t_heap stale_stream ! 0)
    \<and> map_of (transports stale_stream) ''t1'' \<noteq> None
    \<and> map_of (producers stale_stream) ''p1'' = Some 0
    \<and> transports (disconnect ''B'' stale_stream) = []
    \<and> map_of (producers (disconnect ''B'' stale_stream)) ''p1'' = None)"
proof -
  have tr: "transports two_streams = [(''t1'', 0), (''t2'', 1)]"
    and pr: "producers two_streams = [(''p2'', 0), (''p1'', 1)]"
    and ph: "transportId (p_heap two_streams ! 0) = Some ''t2''"
            "transportId (p_heap two_streams ! Suc 0) = Some ''t1''"
    by (simp_all add: two_streams_def)
  have a: "well_formed two_streams
    \<and> transports (disconnect ''A'' two_streams) = []
    \<and> disconnect ''A'' two_streams = disconnect ''B'' two_streams
    \<and> t_closed (t_heap (disconnect ''A'' two_streams) ! 0)
    \<and> t_closed (t_heap (disconnect ''A'' two_streams) ! 1)
    \<and> map_of (transports two_streams) ''t2'' \<noteq> None
    \<and> map_of (producers (disconnect ''A'' two_streams)) ''p2'' = None
    \<and> p_closed (p_heap (disconnect ''A'' two_streams) ! 0)
    \<and> map_of (producers (disconnect ''A'' two_streams)) ''p1'' = None
    \<and> p_closed (p_heap (disconnect ''A'' two_streams) ! 1)"
    using disconnect_tears_down_all [of "''A''" two_streams "''B''"] wf_two_streams
    by (auto simp: tr pr ph)
  have str: "transports stale_stream = [(''t1'', 0)]"
    and spr: "producers stale_stream = [(''p1'', 0)]"
    and sph: "transportId (p_heap stale_stream ! 0) = Some ''t1''"
             "p_closed (p_heap stale_stream ! 0)" "t_closed (t_heap stale_stream ! 0)"
    by (simp_all add: stale_stream_def)
  have b: "well_formed stale_stream
    \<and> p_closed (p_heap stale_stream ! 0) \<and> t_closed (t_heap stale_stream ! 0)
    \<and> map_of (transports stale_stream) ''t1'' \<noteq> None
    \<and> map_of (producers stale_stream) ''p1'' = Some 0
    \<and> transports (disconnect ''B'' stale_stream) = []
    \<and> map_of (producers (disconnect ''B'' stale_stream)) ''p1'' = None"
    using disconnect_tears_down_all [of "''B''" stale_stream "''B''"] wf_stale_stream
    by (auto simp: str spr sph)
  from a b show ?thesis by blast
qed

text \<open>
  Claim C3, as stated, asks that a transport whose creation resolves after its
  session has disconnected be closed at once and never stored. The handler has no such
  check: \<open>A\<close> asks for a transport, disconnects, and the engine call then resolves;
  the transport is stored, open.
\<close>

theorem late_transport_is_stored:
  "run [Connection ''A'', CreateWebRtcTransport ''A'' True, Disconnect ''A'',
        Settle 0 (Resolved ''t1'')] init =
     \<lparr>t_heap = [\<lparr>t_id = ''t1'', t_closed = False\<rparr>], p_heap = [],
      transports = [(''t1'', 0)], producers = [], pending = [],
      acks = [(''A'', AckParams ''t1'')], exit_timers = [], exit_code = None\<rparr>"
  by code_simp

text \<open>
  Claim C3, amended. When a pending \<open>createWebRtcTransport\<close> call resolves after the
  session that made it has disconnected, nothing is re-validated: the new transport is
  stored under its id, still open, and its parameters go to the callback of the
  request. Since the disconnect emptied the map, the new transport is its only entry.
\<close>

theorem pending_create_survives_disconnect:
  assumes "exit_code s = None" and "n < length (pending s)"
    and "pending s ! n = PCreate sid cb"
    and "newId \<notin> set (map t_id (t_heap s))"
  shows "transports (step (Settle n (Resolved newId)) (step (Disconnect sid) s))
           = [(newId, length (t_heap s))]
       \<and> t_heap (step (Settle n (Resolved newId)) (step (Disconnect sid) s)) ! length (t_heap s)
           = \<lparr>t_id = newId, t_closed = False\<rparr>
       \<and> (cb \<longrightarrow> acks (step (Settle n (Resolved newId)) (step (Disconnect sid) s))
                  = acks s @ [(sid, AckParams newId)])"
proof -
  let ?d = "disconnect sid s"
  have d: "step (Disconnect sid) s = ?d" using assms(1) by (simp add: step_def)
  have "step (Settle n (Resolved newId)) ?d =
          createWebRtcTransport_resume sid cb (Resolved newId)
            (?d\<lparr>pending := remove_nth n (pending s)\<rparr>)"
    using assms by (simp add: step_def)
  then show ?thesis
    unfolding d
    by (simp add: resume_Resolved uncaught_def transports_set_def nth_append)
qed

theorem pending_create_survives_disconnect_witness:
  "exit_code three_pending = None \<and> 0 < length (pending three_pending)
   \<and> pending three_pending ! 0 = PCreate ''B'' True
   \<and> ''t2'' \<notin> set (map t_id (t_heap three_pending))
   \<and> transports (step (Settle 0 (Resolved ''t2'')) (step (Disconnect ''B'') three_pending))
       = [(''t2'', 1)]
   \<and> t_heap (step (Settle 0 (Resolved ''t2'')) (step (Disconnect ''B'') three_pending)) ! 1
       = \<lparr>t_id = ''t2'', t_closed = False\<rparr>
   \<and> acks (step (Settle 0 (Resolved ''t2'')) (step (Disconnect ''B'') three_pending))
       = acks three_pending @ [(''B'', AckParams ''t2'')]"
  using pending_create_survives_disconnect [of three_pending 0 "''B''" True "''t2''"]
  by (simp add: three_pending_def)

text \<open>
  Claim C4. For a transport id that is not a key of the transports map, both
  \<open>connectTransport\<close> and \<open>produce\<close> answer with the error payload
  \<open>Transport not found [id: ...]\<close>, and nothing else in the state changes: no entry
  of either map is added or removed and no engine call is started.
\<close>

theorem unknown_transport_not_found:
  assumes "map_of (transports s) tId = None"
  shows "connectTransport_start sid (Some tId) True s =
           s\<lparr>acks := acks s @ [(sid, AckError (''Transport not found [id: '' @ tId @ '']''))]\<rparr>
       \<and> produce_start sid (Some (tId, kind)) True s =
           s\<lparr>acks := acks s @ [(sid, AckError (''Transport not found [id: '' @ tId @ '']''))]\<rparr>"
  using assms
  by (simp add: connectTransport_start_def produce_start_def try_catch_throw not_found_def)

theorem unknown_transport_not_found_witness:
  "map_of (transports one_stream) ''t7'' = None
   \<and> connectTransport_start ''B'' (Some ''t7'') True one_stream =
       one_stream\<lparr>acks := acks one_stream @
          [(''B'', AckError ''Transport not found [id: t7]'')]\<rparr>
   \<and> produce_start ''B'' (Some (''t7'', Video)) True one_stream =
       one_stream\<lparr>acks := acks one_stream @
          [(''B'', AckError ''Transport not found [id: t7]'')]\<rparr>"
  using unknown_transport_not_found [of one_stream "''t7''" "''B''" Video]
  by (simp add: one_stream_def)

text \<open>
  Claim C5, as stated, lets \<open>produce\<close> succeed only on a connected transport of the
  caller's own session. The handler checks neither: \<open>A\<close> creates a transport, nobody
  connects it, \<open>B\<close> produces on it and receives a producer id.
\<close>

theorem produce_on_foreign_unconnected_transport:
  "run [Connection ''A'', Connection ''B'',
        CreateWebRtcTransport ''A'' True, Settle 0 (Resolved ''t1''),
        Produce ''B'' (Some (''t1'', Audio)) True, Settle 0 (Resolved ''p1'')] init =
     \<lparr>t_heap = [\<lparr>t_id = ''t1'', t_closed = False\<rparr>],
      p_heap = [\<lparr>p_id = ''p1'', p_closed = False, p_kind = Audio, p_transport = 0,
                 transportId = Some ''t1''\<rparr>],
      transports = [(''t1'', 0)], producers = [(''p1'', 0)], pending = [],
      acks = [(''A'', AckParams ''t1''), (''B'', AckId ''p1'')],
      exit_timers = [], exit_code = None\<rparr>"
  by code_simp

text \<open>
  Claim C5, amended. A \<open>produce\<close> request returns a new producer id only when the
  named transport is in the transports map when the request arrives and the engine's
  \<open>produce\<close> call then resolves: an acknowledgement carrying a producer id is only
  ever sent when a pending \<open>produce\<close> call of that socket resolves, and a
  \<open>produce\<close> call only ever becomes pending through a request that found its
  transport stored. Who created the transport and whether it is connected are not
  looked at.
\<close>

theorem producer_id_only_for_stored_transport:
  assumes "exit_code s = None"
  shows "(acks (step e s) = acks s @ [(sid, AckId newId)] \<longrightarrow>
            (\<exists>n cb tId kind t. e = Settle n (Resolved newId) \<and> n < length (pending s)
                \<and> pending s ! n = PProduce sid cb tId kind t))
       \<and> (PProduce sid cb tId kind t \<in> set (pending (step e s))
            \<and> PProduce sid cb tId kind t \<notin> set (pending s) \<longrightarrow>
            e = Produce sid (Some (tId, kind)) cb \<and> map_of (transports s) tId = Some t)"
  using assms handle_AckId [of e s sid newId] handle_new_PProduce [of sid cb tId kind t e s]
  by (simp add: step_def)

theorem producer_id_only_for_stored_transport_witness:
  "exit_code three_pending = None
   \<and> acks (step (Settle 2 (Resolved ''p1'')) three_pending)
       = acks three_pending @ [(''A'', AckId ''p1'')]
   \<and> (\<exists>n cb tId kind t. Settle 2 (Resolved ''p1'') = Settle n (Resolved ''p1'')
         \<and> n < length (pending three_pending)
         \<and> pending three_pending ! n = PProduce ''A'' cb tId kind t)
   \<and> PProduce ''B'' True ''t1'' Video 0
        \<in> set (pending (step (Produce ''B'' (Some (''t1'', Video)) True) one_stream))
   \<and> PProduce ''B'' True ''t1'' Video 0 \<notin> set (pending one_stream)
   \<and> map_of (transports one_stream) ''t1'' = Some 0"
proof -
  have a: "acks (step (Settle 2 (Resolved ''p1'')) three_pending)
       = acks three_pending @ [(''A'', AckId ''p1'')]"
    by code_simp
  have b: "PProduce ''B'' True ''t1'' Video 0
             \<in> set (pending (step (Produce ''B'' (Some (''t1'', Video)) True) one_stream))"
    by code_simp
  have c: "PProduce ''B'' True ''t1'' Video 0 \<notin> set (pending one_stream)"
    by (simp add: one_stream_def)
  have e: "exit_code three_pending = None" "exit_code one_stream = None"
    by (simp_all add: three_pending_def one_stream_def)
  show ?thesis
    using producer_id_only_for_stored_transport
            [OF e(1), of "Settle 2 (Resolved ''p1'')" "''A''" "''p1''" True "''t1''" Audio 0]
          producer_id_only_for_stored_transport
            [OF e(2), of "Produce ''B'' (Some (''t1'', Video)) True" "''B''" "''p1''" True
               "''t1''" Video 0]
          a b c e
    by simp
qed




text \<open>
  Claim C7. Closing is idempotent: running the disconnect handler a second time, or
  closing a transport or a producer a second time, gives the state the first close
  gave, and closing a transport or producer that is already closed changes nothing.
  None of these operations can throw.
\<close>

theorem close_idempotent:
  "disconnect sid (disconnect sid s) = disconnect sid s
   \<and> (t < length (t_heap s) \<longrightarrow> transport_close t (transport_close t s) = transport_close t s)
   \<and> (p < length (p_heap s) \<longrightarrow> producer_close p (producer_close p s) = producer_close p s)
   \<and> (t_closed (t_heap s ! t) \<longrightarrow> transport_close t s = s)
   \<and> (p_closed (p_heap s ! p) \<longrightarrow> producer_close p s = s)"
proof -
  have "t_closed (t_heap s ! t) \<longrightarrow> transport_close t s = s"
    by (simp add: transport_close_def)
  moreover have "p_closed (p_heap s ! p) \<longrightarrow> producer_close p s = s"
    by (simp add: producer_close_def)
  ultimately show ?thesis
    by (simp add: disconnect_twice transport_close_twice producer_close_twice)
qed

theorem close_idempotent_witness:
  "(0 < length (t_heap one_stream)
    \<and> transport_close 0 (transport_close 0 one_stream) = transport_close 0 one_stream)
   \<and> (0 < length (p_heap one_stream)
    \<and> producer_close 0 (producer_close 0 one_stream) = producer_close 0 one_stream)
   \<and> (t_closed (t_heap (disconnect ''A'' one_stream) ! 0)
    \<and> transport_close 0 (disconnect ''A'' one_stream) = disconnect ''A'' one_stream)
   \<and> (p_closed (p_heap (disconnect ''A'' one_stream) ! 0)
    \<and> producer_close 0 (disconnect ''A'' one_stream) = disconnect ''A'' one_stream)"
proof -
  have d: "disconnect ''A'' one_stream =
        one_stream\<lparr>t_heap := [\<lparr>t_id = ''t1'', t_closed = True\<rparr>],
          p_heap := [\<lparr>p_id = ''p1'', p_closed = True, p_kind = Audio, p_transport = 0,
                transportId = Some ''t1''\<rparr>], transports := [], producers := []\<rparr>"
    by code_simp
  show ?thesis
    using close_idempotent [of "''A''" one_stream 0 0]
          close_idempotent [of "''A''" "disconnect ''A'' one_stream" 0 0]
    by (simp add: d) (simp add: one_stream_def)
qed




text \<open>
  Claim C9. The \<open>died\<close> listener only sets a timer of 2000 milliseconds: it starts
  no recovery and touches nothing else. In whatever state the running process is when
  the worker dies, and while the engine closes its transports and rejects the awaited
  calls, that timer is set. Whatever events follow, the process has exited with code 1
  once the timer has fired, and it handles nothing after that. Until the timer fires
  the process keeps running, provided no handler meets a missing callback or payload,
  which would end it before, with the same exit code.
\<close>

theorem worker_died_exits:
  assumes "exit_code s = None"
  shows "on_died s = s\<lparr>exit_timers := exit_timers s @ [2000]\<rparr>
       \<and> exit_timers (step (WorkerDied msgs) s) = exit_timers s @ [2000]
       \<and> exit_code (run (WorkerDied msgs # es @ [TimerFire]) s) = Some 1
       \<and> (\<forall>e. step e (run (WorkerDied msgs # es @ [TimerFire]) s)
                = run (WorkerDied msgs # es @ [TimerFire]) s)
       \<and> (list_all acked (pending s) \<and> list_all acked_request es \<and> TimerFire \<notin> set es \<longrightarrow>
            exit_code (run (WorkerDied msgs # es) s) = None)"
proof -
  let ?s1 = "step (WorkerDied msgs) s"
  have t1: "exit_timers ?s1 = exit_timers s @ [2000]"
    using assms by (simp add: step_def on_died_def)
  have "exit_code ?s1 = Some 1 \<or> (exit_code ?s1 = None \<and> exit_timers ?s1 \<noteq> [])"
    using assms handle_exit_code [of "WorkerDied msgs" s] t1 by (auto simp: step_def)
  from run_exits [OF this, of es]
  have mid: "exit_code (run es ?s1) = Some 1
           \<or> (exit_code (run es ?s1) = None \<and> exit_timers (run es ?s1) \<noteq> [])" .
  have r: "run (WorkerDied msgs # es @ [TimerFire]) s = step TimerFire (run es ?s1)"
    by (simp add: run_def)
  have fin: "exit_code (run (WorkerDied msgs # es @ [TimerFire]) s) = Some 1"
    unfolding r using mid
    by (cases "exit_timers (run es ?s1)") (auto simp: step_def timer_fire_def)
  then have stop: "\<forall>e. step e (run (WorkerDied msgs # es @ [TimerFire]) s)
                = run (WorkerDied msgs # es @ [TimerFire]) s"
    by (simp add: step_def)
  have quiet: "exit_code (run (WorkerDied msgs # es) s) = None"
    if "list_all acked (pending s)" "list_all acked_request es" "TimerFire \<notin> set es"
  proof -
    have "exit_code ?s1 = None" "list_all acked (pending ?s1)"
      using assms that(1) handle_acked [of s "WorkerDied msgs"] by (simp_all add: step_def)
    from run_acked [OF this that(2,3)] show ?thesis by (simp add: run_Cons)
  qed
  show ?thesis using t1 fin stop quiet by (simp add: on_died_def)
qed

theorem worker_died_exits_witness:
  "exit_code three_pending = None
   \<and> step (WorkerDied channel_closed) three_pending =
       \<lparr>t_heap = [\<lparr>t_id = ''t1'', t_closed = True\<rparr>], p_heap = [],
        transports = [(''t1'', 0)], producers = [], pending = [],
        acks = [(''A'', AckParams ''t1''), (''A'', AckError ''Channel closed''),
                (''A'', AckError ''Channel closed''), (''B'', AckError ''Channel closed'')],
        exit_timers = [2000], exit_code = None\<rparr>
   \<and> list_all acked (pending three_pending)
   \<and> list_all acked_request [Produce ''A'' (Some (''t1'', Video)) True, Disconnect ''A'']
   \<and> TimerFire \<notin> set [Produce ''A'' (Some (''t1'', Video)) True, Disconnect ''A'']
   \<and> exit_code (run (WorkerDied channel_closed
        # [Produce ''A'' (Some (''t1'', Video)) True, Disconnect ''A'']) three_pending) = None
   \<and> exit_code (run (WorkerDied channel_closed
        # [Produce ''A'' (Some (''t1'', Video)) True, Disconnect ''A''] @ [TimerFire])
        three_pending) = Some 1"
proof -
  have a: "step (WorkerDied channel_closed) three_pending =
       \<lparr>t_heap = [\<lparr>t_id = ''t1'', t_closed = True\<rparr>], p_heap = [],
        transports = [(''t1'', 0)], producers = [], pending = [],
        acks = [(''A'', AckParams ''t1''), (''A'', AckError ''Channel closed''),
                (''A'', AckError ''Channel closed''), (''B'', AckError ''Channel closed'')],
        exit_timers = [2000], exit_code = None\<rparr>"
    by code_simp
  have b: "exit_code three_pending = None" "list_all acked (pending three_pending)"
    by (simp_all add: three_pending_def)
  show ?thesis
    using worker_died_exits [OF b(1), of channel_closed
            "[Produce ''A'' (Some (''t1'', Video)) True, Disconnect ''A'']"] a b
    by simp
qed

text \<open>
  Claim C10. Starting from a well-formed state, after any sequence of events every
  stored producer's \<open>transportId\<close> is the id of the transport the engine created it
  on, and the \<open>transportId\<close> of a producer that exists is never changed. The field is
  set when the producer is created by the resuming \<open>produce\<close> handler, which files it
  under its id with the field already in place.
\<close>

theorem stored_producers_carry_transport_id:
  assumes "well_formed s"
  shows "producer_transport_ids (run es s)
       \<and> (\<forall>p<length (p_heap s).
             transportId (p_heap (run es s) ! p) = transportId (p_heap s ! p))
       \<and> (pending_call_ok s (PProduce sid cb tId kind t) \<longrightarrow>
            map_of (producers (produce_resume sid cb tId kind t (Resolved newId) s)) newId
              = Some (length (p_heap s))
          \<and> p_heap (produce_resume sid cb tId kind t (Resolved newId) s) ! length (p_heap s)
              = \<lparr>p_id = newId, p_closed = False, p_kind = kind, p_transport = t,
                 transportId = Some (t_id (t_heap s ! t))\<rparr>)"
proof -
  have "producer_transport_ids (run es s)"
    using wf_run [OF assms] by (rule well_formed_producer_transport_ids)
  moreover have "\<forall>p<length (p_heap s).
             transportId (p_heap (run es s) ! p) = transportId (p_heap s ! p)"
    by (simp add: run_transportId)
  moreover have "map_of (producers (produce_resume sid cb tId kind t (Resolved newId) s)) newId
              = Some (length (p_heap s))
          \<and> p_heap (produce_resume sid cb tId kind t (Resolved newId) s) ! length (p_heap s)
              = \<lparr>p_id = newId, p_closed = False, p_kind = kind, p_transport = t,
                 transportId = Some (t_id (t_heap s ! t))\<rparr>"
    if "pending_call_ok s (PProduce sid cb tId kind t)"
    using that
    by (simp add: resume_Resolved uncaught_def producers_set_def AList.update_conv')
  ultimately show ?thesis by blast
qed

theorem stored_producers_carry_transport_id_witness:
  "well_formed one_stream
   \<and> producers (run [Produce ''B'' (Some (''t1'', Video)) True, Settle 0 (Resolved ''p2'')]
        one_stream) = [(''p1'', 0), (''p2'', 1)]
   \<and> producer_transport_ids
       (run [Produce ''B'' (Some (''t1'', Video)) True, Settle 0 (Resolved ''p2'')] one_stream)
   \<and> transportId (p_heap (run [Produce ''B'' (Some (''t1'', Video)) True,
        Settle 0 (Resolved ''p2'')] one_stream) ! 0) = transportId (p_heap one_stream ! 0)
   \<and> pending_call_ok one_stream (PProduce ''B'' True ''t1'' Video 0)
   \<and> map_of (producers (produce_resume ''B'' True ''t1'' Video 0 (Resolved ''p2'') one_stream))
        ''p2'' = Some 1"
proof -
  have a: "producers (run [Produce ''B'' (Some (''t1'', Video)) True,
             Settle 0 (Resolved ''p2'')] one_stream) = [(''p1'', 0), (''p2'', 1)]"
    by code_simp
  have b: "length (p_heap one_stream) = 1"
          "pending_call_ok one_stream (PProduce ''B'' True ''t1'' Video 0)"
    by (simp_all add: one_stream_def)
  show ?thesis
    using stored_producers_carry_transport_id [OF wf_one_stream,
            of "[Produce ''B'' (Some (''t1'', Video)) True, Settle 0 (Resolved ''p2'')]"
               "''B''" True "''t1''" Video 0 "''p2''"]
          wf_one_stream a b
    by simp
qed

end
